theory Spec2Isabelle
  imports Main
begin

section \<open>JavaScript values\<close>

text \<open>
  The service and the controller handle untyped values: whatever \<^verbatim>\<open>JSON.parse\<close>
  returns is read field by field and tested with \<^verbatim>\<open>||\<close> and \<^verbatim>\<open>if (..)\<close>.
  A number is kept as its canonical rendering (the result of \<^verbatim>\<open>String(n)\<close>): the
  code never computes with one, it only tests it for truthiness and prints it.
  An object is the association list of its own properties.
\<close>

datatype jsval =
    Undefined
  | Null
  | Bool bool
  | Num string
  | Str string
  | Arr "jsval list"
  | Obj "(string \<times> jsval) list"

fun truthy :: "jsval \<Rightarrow> bool" where
  "truthy Undefined = False"
| "truthy Null = False"
| "truthy (Bool b) = b"
| "truthy (Num n) = (n \<noteq> ''0'' \<and> n \<noteq> ''NaN'')"
| "truthy (Str s) = (s \<noteq> [])"
| "truthy (Arr xs) = True"
| "truthy (Obj kvs) = True"

text \<open>\<^verbatim>\<open>a || b\<close>\<close>

definition js_or :: "jsval \<Rightarrow> jsval \<Rightarrow> jsval" where
  "js_or a b = (if truthy a then a else b)"

fun join_comma :: "string list \<Rightarrow> string" where
  "join_comma [] = []"
| "join_comma [x] = x"
| "join_comma (x # y # ys) = x @ '','' @ join_comma (y # ys)"

text \<open>\<^verbatim>\<open>String(v)\<close>, as string concatenation, template strings and
  \<^verbatim>\<open>localStorage.setItem\<close> apply it.\<close>

fun to_string :: "jsval \<Rightarrow> string" where
  "to_string Undefined = ''undefined''"
| "to_string Null = ''null''"
| "to_string (Bool b) = (if b then ''true'' else ''false'')"
| "to_string (Num n) = n"
| "to_string (Str s) = s"
| "to_string (Arr xs) =
     join_comma (map (\<lambda>x. if x = Undefined \<or> x = Null then [] else to_string x) xs)"
| "to_string (Obj kvs) = ''[object Object]''"

text \<open>A thrown value: the error's name and message.\<close>

datatype js_exn = Exn string string

fun exn_message :: "js_exn \<Rightarrow> string" where
  "exn_message (Exn n m) = m"

text \<open>\<^verbatim>\<open>e.toString()\<close> of an Error object.\<close>

fun exn_toString :: "js_exn \<Rightarrow> string" where
  "exn_toString (Exn n m) = (if m = [] then n else n @ '': '' @ m)"

text \<open>
  \<^verbatim>\<open>json.key\<close>: a missing property reads as \<^verbatim>\<open>undefined\<close>, and none of the keys
  the code reads is a property of a string, number, boolean or array (\<open>read_prop\<close>);
  reading a property of \<^verbatim>\<open>null\<close> or \<^verbatim>\<open>undefined\<close> throws a TypeError (the message
  is the engine's; V8's is used).
\<close>

definition read_prop :: "jsval \<Rightarrow> string \<Rightarrow> jsval" where
  "read_prop v k =
     (case v of
        Obj kvs \<Rightarrow> (case map_of kvs k of None \<Rightarrow> Undefined | Some x \<Rightarrow> x)
      | _ \<Rightarrow> Undefined)"

definition get_prop :: "jsval \<Rightarrow> string \<Rightarrow> js_exn + jsval" where
  "get_prop v k =
     (if v = Undefined \<or> v = Null
      then Inl (Exn ''TypeError''
                 (''Cannot read properties of '' @ to_string v @ '' (reading ''
                    @ [CHR 0x27] @ k @ [CHR 0x27] @ '')''))
      else Inr (read_prop v k))"

section \<open>types.ts\<close>

datatype Role = User | Model

text \<open>The field \<^verbatim>\<open>text\<close> of a Message holds whatever the caller put there: the trimmed
  transcript for a user message, the Evaluator's untyped field for a model message.\<close>

record Message =
  role :: Role
  msg_text :: jsval

record Feedback =
  isGood :: jsval
  correction :: jsval
  advice :: jsval
  score :: jsval

datatype AppMode = LANDING | ONBOARDING | DASHBOARD | PRACTICE | SUMMARY

datatype SpeakingState = IDLE | LISTENING | PROCESSING | SPEAKING

section \<open>The Evaluator service (services/gemini)\<close>

text \<open>
  The remote model and \<^verbatim>\<open>JSON.parse\<close> are not code of the repository.
  \<^item> \<^verbatim>\<open>JSON.parse\<close> is a parameter \<open>parse\<close> of every function that calls it:
    \<open>Inr v\<close> is the parsed value, \<open>Inl e\<close> the SyntaxError it throws.
  \<^item> What the request to the remote model settles with is an \<open>ai_outcome\<close>: a response
    whose \<^verbatim>\<open>text\<close> is a string or undefined, or a rejection (the network error, or the
    \<^verbatim>\<open>AI Timeout\<close> of \<^verbatim>\<open>withTimeout\<close>).
  \<^item> An async function is a value of \<open>'a async\<close>: it has returned (\<open>Done\<close>), or it
    waits for one request to the remote model raced against a timer of the given number
    of milliseconds, and goes on with the outcome (\<open>AwaitAI\<close>).
  The prompts are not modelled: nothing the code does depends on them but the outcome,
  and the outcome is the environment's.
\<close>

type_synonym json_parse = "string \<Rightarrow> js_exn + jsval"

datatype ai_outcome = Responded "string option" | Rejected js_exn

datatype 'a async = Done 'a | AwaitAI nat "ai_outcome \<Rightarrow> 'a"

definition AI_Timeout :: js_exn where
  "AI_Timeout = Exn ''Error'' ''AI Timeout''"

text \<open>\<^verbatim>\<open>await withTimeout(ai.models.generateContent(..))\<close> with the default
  \<^verbatim>\<open>ms = 15000\<close>, followed by the rest \<open>k\<close> of the function.\<close>

definition withTimeout :: "(ai_outcome \<Rightarrow> 'a) \<Rightarrow> 'a async" where
  "withTimeout k = AwaitAI 15000 k"

text \<open>
  \<^verbatim>\<open>text.match(/\{[\s\S]*\}/)\<close>: the leftmost match starts at the first opening brace
  that has a closing brace after it, and the greedy star extends it to the last closing
  brace of the text.
\<close>

definition match_braces :: "string \<Rightarrow> string option" where
  "match_braces text =
     (let t = dropWhile (\<lambda>c. c \<noteq> CHR ''{'') text
      in if CHR ''}'' \<in> set t
         then Some (rev (dropWhile (\<lambda>c. c \<noteq> CHR ''}'') (rev t)))
         else None)"

definition cleanJSON :: "json_parse \<Rightarrow> string \<Rightarrow> string" where
  "cleanJSON parse text =
     (case parse text of
        Inr v \<Rightarrow> text
      | Inl e \<Rightarrow> (case match_braces text of Some m \<Rightarrow> m | None \<Rightarrow> text))"

text \<open>\<^verbatim>\<open>response.text || d\<close>\<close>

definition text_or :: "string option \<Rightarrow> string \<Rightarrow> string" where
  "text_or t d = (case t of None \<Rightarrow> d | Some s \<Rightarrow> if s = [] then d else s)"

record placement_result =
  question :: jsval
  isFinished :: bool
  level :: jsval

definition userTurnCount :: "Message list \<Rightarrow> nat" where
  "userTurnCount history = length (filter (\<lambda>m. role m = User) history)"

text \<open>The two \<^verbatim>\<open>try\<close> bodies of \<^verbatim>\<open>generatePlacementQuestion\<close>; \<open>Inl\<close> is a throw.\<close>

definition placement_evaluation_try :: "json_parse \<Rightarrow> ai_outcome \<Rightarrow> js_exn + placement_result" where
  "placement_evaluation_try parse ai =
     (case ai of
        Rejected e \<Rightarrow> Inl e
      | Responded t \<Rightarrow>
          (case parse (cleanJSON parse (text_or t ''{}'')) of
             Inl e \<Rightarrow> Inl e
           | Inr json \<Rightarrow>
               (case get_prop json ''level'' of
                  Inl e \<Rightarrow> Inl e
                | Inr l \<Rightarrow>
                    Inr \<lparr>question = Undefined, isFinished = True,
                         level = js_or l (Str ''A2'')\<rparr>)))"

definition placement_question_try :: "json_parse \<Rightarrow> ai_outcome \<Rightarrow> js_exn + placement_result" where
  "placement_question_try parse ai =
     (case ai of
        Rejected e \<Rightarrow> Inl e
      | Responded t \<Rightarrow>
          (let text = cleanJSON parse (text_or t [])
           in if text = [] then Inl (Exn ''Error'' ''No response'')
              else (case parse text of
                      Inl e \<Rightarrow> Inl e
                    | Inr json \<Rightarrow>
                        (case get_prop json ''question'' of
                           Inl e \<Rightarrow> Inl e
                         | Inr q \<Rightarrow>
                             Inr \<lparr>question = q, isFinished = False, level = Undefined\<rparr>))))"

definition generatePlacementQuestion ::
  "json_parse \<Rightarrow> Message list \<Rightarrow> (js_exn + placement_result) async" where
  "generatePlacementQuestion parse history =
     (if userTurnCount history \<ge> 5
      then withTimeout (\<lambda>ai.
             case placement_evaluation_try parse ai of
               Inr r \<Rightarrow> Inr r
             | Inl e \<Rightarrow> Inr \<lparr>question = Undefined, isFinished = True, level = Str ''B1''\<rparr>)
      else withTimeout (\<lambda>ai.
             case placement_question_try parse ai of
               Inr r \<Rightarrow> Inr r
             | Inl e \<Rightarrow>
                 Inr \<lparr>question = Str ''Could you tell me about your hobbies?'',
                      isFinished = False, level = Undefined\<rparr>))"

text \<open>A DailyTopic is whatever \<^verbatim>\<open>JSON.parse\<close> returned, cast: a \<open>jsval\<close>.\<close>

definition fallback_topic :: "jsval \<Rightarrow> jsval" where
  "fallback_topic userLevel =
     Obj [(''id'', Str ''fallback''),
          (''title'', Str ''Casual Chat''),
          (''description'', Str ''A friendly chat.''),
          (''scenario'', Str ''We are friends.''),
          (''difficulty'', userLevel),
          (''openingLine'', Str ''Hi there! How is your day going?'')]"

definition topic_try :: "json_parse \<Rightarrow> ai_outcome \<Rightarrow> js_exn + jsval" where
  "topic_try parse ai =
     (case ai of
        Rejected e \<Rightarrow> Inl e
      | Responded t \<Rightarrow>
          (let text = cleanJSON parse (text_or t [])
           in if text = [] then Inl (Exn ''Error'' ''No topic generated'')
              else parse text))"

definition generateDailyTopic :: "json_parse \<Rightarrow> jsval \<Rightarrow> (js_exn + jsval) async" where
  "generateDailyTopic parse userLevel =
     withTimeout (\<lambda>ai.
       case topic_try parse ai of
         Inr topic \<Rightarrow> Inr topic
       | Inl e \<Rightarrow> Inr (fallback_topic userLevel))"

record turn_result =
  feedback :: Feedback
  nextResponse :: jsval
  complete :: bool
  error :: "string option"

definition turn_try :: "json_parse \<Rightarrow> ai_outcome \<Rightarrow> js_exn + turn_result" where
  "turn_try parse ai =
     (case ai of
        Rejected e \<Rightarrow> Inl e
      | Responded t \<Rightarrow>
          (let text = cleanJSON parse (text_or t [])
           in if text = [] then Inl (Exn ''Error'' ''Empty response'')
              else (case parse text of
                      Inl e \<Rightarrow> Inl e
                    | Inr json \<Rightarrow>
                        (case get_prop json ''isGood'' of
                           Inl e \<Rightarrow> Inl e
                         | Inr g \<Rightarrow>
                             Inr \<lparr>feedback =
                                    \<lparr>isGood = g,
                                     correction = read_prop json ''correction'',
                                     advice = js_or (read_prop json ''advice'')
                                                (Str ''Review your sentence structure.''),
                                     score = read_prop json ''score''\<rparr>,
                                  nextResponse = js_or (read_prop json ''nextResponse'')
                                                   (Str ''I see. Please continue.''),
                                  complete = False,
                                  error = None\<rparr>))))"

text \<open>
  The prompt of \<^verbatim>\<open>evaluateTurn\<close> is a template literal evaluated after the test of the
  turn count and before the \<^verbatim>\<open>try\<close> block. It reads \<^verbatim>\<open>topic.scenario\<close>, which throws a
  \<^verbatim>\<open>TypeError\<close> for a topic that is \<^verbatim>\<open>null\<close> or \<^verbatim>\<open>undefined\<close>, and converts the scenario,
  the level and the user's input to strings. The fixed text around them is left out: the
  result is the list of the interpolated parts, in the order of the template.
\<close>

definition turn_prompt :: "jsval \<Rightarrow> string \<Rightarrow> jsval \<Rightarrow> js_exn + string list" where
  "turn_prompt topic lastUserMessage userLevel =
     (case get_prop topic ''scenario'' of
        Inl e \<Rightarrow> Inl e
      | Inr scenario \<Rightarrow> Inr [to_string scenario, to_string userLevel, lastUserMessage])"

text \<open>An exception of the prompt is outside the \<^verbatim>\<open>try\<close> block: the promise of
  \<^verbatim>\<open>evaluateTurn\<close> is rejected with it and no request is made.\<close>

definition evaluateTurn ::
  "json_parse \<Rightarrow> jsval \<Rightarrow> Message list \<Rightarrow> string \<Rightarrow> jsval \<Rightarrow> (js_exn + turn_result) async" where
  "evaluateTurn parse topic history lastUserMessage userLevel =
     (if userTurnCount history \<ge> 5
      then Done (Inr \<lparr>feedback = \<lparr>isGood = Bool True, correction = Undefined,
                                  advice = Str ''Session complete! Great job.'',
                                  score = Num ''5''\<rparr>,
                      nextResponse = Str ''Thank you for chatting with me! See you tomorrow.'',
                      complete = True,
                      error = None\<rparr>)
      else (case turn_prompt topic lastUserMessage userLevel of
              Inl e \<Rightarrow> Done (Inl e)
            | Inr prompt \<Rightarrow>
                withTimeout (\<lambda>ai.
                  case turn_try parse ai of
                    Inr r \<Rightarrow> Inr r
                  | Inl e \<Rightarrow>
                      Inr \<lparr>feedback = \<lparr>isGood = Bool True, correction = Undefined,
                                        advice = Str ''Good effort!'', score = Num ''3''\<rparr>,
                           nextResponse =
                             Str ''Could you rephrase that? I didn't quite catch it.'',
                           complete = False,
                           error = Some (exn_toString e)\<rparr>)))"

section \<open>The controller state (App.tsx)\<close>

text \<open>
  The speech engine is the platform's. What one call of \<^verbatim>\<open>speakText\<close> meets there is
  the environment's choice: the engine takes the utterance; or a call inside the
  \<^verbatim>\<open>try\<close> block throws before the start timer is set (the constructor, the voices);
  or \<^verbatim>\<open>synth.speak\<close> itself throws, after the timer is set; or there is no engine and
  \<^verbatim>\<open>synthRef.current.speaking\<close>, outside the \<^verbatim>\<open>try\<close>, throws.
\<close>

datatype synth_behaviour =
    SynthOk
  | SynthThrowsEarly js_exn
  | SynthThrowsAtSpeak js_exn
  | SynthMissing

text \<open>
  A handler is a closure over the values of the render that created it. An await site
  keeps the closure of its handler: the rest of the handler reads \<^verbatim>\<open>mode\<close> and calls
  \<^verbatim>\<open>speakText\<close> (which closes over \<^verbatim>\<open>speakingState\<close>) as they were at the click.
\<close>

record closure =
  c_mode :: AppMode
  c_speakingState :: SpeakingState

text \<open>The four \<^verbatim>\<open>await\<close> sites of App.tsx, with the arguments of the call.\<close>

datatype call_site =
    Submit_generatePlacementQuestion "Message list"
  | Submit_evaluateTurn jsval "Message list" string jsval
  | StartOnboarding_generatePlacementQuestion
  | StartPractice_generateDailyTopic jsval

text \<open>A request to the remote model that has not settled: the milliseconds left on the
  timer of \<^verbatim>\<open>withTimeout\<close>, and who waits for it.\<close>

record call =
  call_id :: nat
  call_timer :: nat
  call_site :: call_site
  call_closure :: closure

text \<open>The \<^verbatim>\<open>startTimeout\<close> of one \<^verbatim>\<open>speakText\<close> call, with the \<^verbatim>\<open>speakingState\<close> its
  callback closes over.\<close>

record start_timeout =
  st_id :: nat
  st_timer :: nat
  st_speakingState :: SpeakingState

text \<open>The \<^verbatim>\<open>setTimeout(() => speakText(introText), 100)\<close> of \<^verbatim>\<open>startPractice\<close>.\<close>

record intro_timeout =
  it_timer :: nat
  it_text :: jsval
  it_speakingState :: SpeakingState

text \<open>
  The state of the component: the \<^verbatim>\<open>useState\<close> values, the refs, the one key of
  \<^verbatim>\<open>localStorage\<close>, and what is pending in the event loop (timers in milliseconds).
  \<^verbatim>\<open>messagesRef\<close> is not a field: an effect copies \<^verbatim>\<open>messages\<close> into it after every
  render, and every handler runs after a render. \<open>recognitionRef\<close> is \<open>None\<close> until the
  recognition object is created, then the \<^verbatim>\<open>speakingState\<close> its handlers closed over.
\<close>

record App =
  mode :: AppMode
  userLevel :: jsval
  showLevelSelector :: bool
  speakingState :: SpeakingState
  messages :: "Message list"
  currentTopic :: jsval
  lastFeedback :: "Feedback option"
  transcript :: string
  logs :: "string list"
  showLogs :: bool
  processingRef :: bool
  recognitionRef :: "SpeakingState option"
  localStorage :: "string option"
  hasSpeechRecognition :: bool
  synth :: synth_behaviour
  watchdog :: "nat option"
  inflight :: "call list"
  startTimeouts :: "start_timeout list"
  introTimeouts :: "intro_timeout list"
  utterances :: "(nat \<times> jsval) list"
  nextId :: nat

definition initial_App :: "string option \<Rightarrow> bool \<Rightarrow> synth_behaviour \<Rightarrow> App" where
  "initial_App stored recognition engine =
     \<lparr>mode = LANDING, userLevel = Str ''A2'', showLevelSelector = False,
      speakingState = IDLE, messages = [], currentTopic = Null, lastFeedback = None,
      transcript = [], logs = [], showLogs = False, processingRef = False,
      recognitionRef = None, localStorage = stored,
      hasSpeechRecognition = recognition, synth = engine,
      watchdog = None, inflight = [], startTimeouts = [], introTimeouts = [],
      utterances = [], nextId = 0\<rparr>"

definition addLog :: "string \<Rightarrow> App \<Rightarrow> App" where
  "addLog msg s = s\<lparr>logs := take 20 (msg # logs s)\<rparr>"

subsection \<open>Persistence\<close>

text \<open>The effect that runs once on mount.\<close>

definition load_level :: "App \<Rightarrow> App" where
  "load_level s =
     (case localStorage s of
        None \<Rightarrow> s
      | Some savedLevel \<Rightarrow>
          if savedLevel \<noteq> []
          then (addLog (''Restored level: '' @ savedLevel) s)
                 \<lparr>userLevel := Str savedLevel, mode := DASHBOARD\<rparr>
          else s)"

definition mount :: "string option \<Rightarrow> bool \<Rightarrow> synth_behaviour \<Rightarrow> App" where
  "mount stored recognition engine = load_level (initial_App stored recognition engine)"

definition saveLevel :: "jsval \<Rightarrow> App \<Rightarrow> App" where
  "saveLevel lvl s =
     addLog (''Level saved: '' @ to_string lvl)
       (s\<lparr>localStorage := Some (to_string lvl), userLevel := lvl\<rparr>)"

subsection \<open>The watchdog\<close>

text \<open>The callback of the watchdog's timer.\<close>

definition watchdog_fires :: "App \<Rightarrow> App" where
  "watchdog_fires s =
     (addLog ''Watchdog: Processing timeout. Force IDLE.'' s)
       \<lparr>speakingState := IDLE, processingRef := False\<rparr>"

text \<open>
  The effect itself depends on \<^verbatim>\<open>[speakingState]\<close>: after a render in which
  \<^verbatim>\<open>speakingState\<close> differs from the render before, the cleanup clears the timer and the
  effect sets a new one of 16000 ms if the state is PROCESSING.
\<close>

definition watchdog_effect :: "SpeakingState \<Rightarrow> App \<Rightarrow> App" where
  "watchdog_effect previous s =
     (if speakingState s = previous then s
      else s\<lparr>watchdog := (if speakingState s = PROCESSING then Some 16000 else None)\<rparr>)"

subsection \<open>Speech output\<close>

definition new_startTimeout :: "SpeakingState \<Rightarrow> App \<Rightarrow> App" where
  "new_startTimeout captured s =
     s\<lparr>startTimeouts :=
          startTimeouts s @ [\<lparr>st_id = nextId s, st_timer = 2000, st_speakingState = captured\<rparr>],
       nextId := Suc (nextId s)\<rparr>"

text \<open>
  \<^verbatim>\<open>speakText(text)\<close> in a closure that captured \<open>captured\<close> as \<^verbatim>\<open>speakingState\<close>:
  the value returned (\<open>Inr\<close>) or the exception that escapes (\<open>Inl\<close>), and the state.
  \<^verbatim>\<open>synth.cancel()\<close> changes nothing of the component's state; what the engine then
  reports for the cancelled utterance is one of the utterance events below.
\<close>

definition speakText :: "jsval \<Rightarrow> SpeakingState \<Rightarrow> App \<Rightarrow> (js_exn + bool) \<times> App" where
  "speakText txt captured s =
     (if \<not> truthy txt then (Inr False, s)
      else (case synth s of
              SynthMissing \<Rightarrow>
                (Inl (Exn ''TypeError''
                       (''Cannot read properties of undefined (reading ''
                          @ [CHR 0x27] @ ''speaking'' @ [CHR 0x27] @ '')'')), s)
            | SynthThrowsEarly e \<Rightarrow>
                (Inr False, addLog (''TTS Exception: '' @ exn_toString e) s)
            | SynthThrowsAtSpeak e \<Rightarrow>
                (Inr False,
                 addLog (''TTS Exception: '' @ exn_toString e) (new_startTimeout captured s))
            | SynthOk \<Rightarrow>
                (Inr True,
                 (new_startTimeout captured s)\<lparr>utterances := utterances s @ [(nextId s, txt)]\<rparr>)))"

definition clearTimeout :: "nat \<Rightarrow> App \<Rightarrow> App" where
  "clearTimeout u s = s\<lparr>startTimeouts := filter (\<lambda>t. st_id t \<noteq> u) (startTimeouts s)\<rparr>"

text \<open>The callback of a \<^verbatim>\<open>startTimeout\<close>.\<close>

definition startTimeout_fires :: "SpeakingState \<Rightarrow> App \<Rightarrow> App" where
  "startTimeout_fires captured s =
     (if captured \<noteq> SPEAKING
      then (addLog ''TTS failed to fire onstart'' s)\<lparr>speakingState := IDLE\<rparr>
      else s)"

definition utterance_onstart :: "nat \<Rightarrow> App \<Rightarrow> App" where
  "utterance_onstart u s = (clearTimeout u s)\<lparr>speakingState := SPEAKING\<rparr>"

definition utterance_onend :: "nat \<Rightarrow> App \<Rightarrow> App" where
  "utterance_onend u s = s\<lparr>speakingState := IDLE\<rparr>"

definition utterance_onerror :: "nat \<Rightarrow> string \<Rightarrow> App \<Rightarrow> App" where
  "utterance_onerror u err s =
     (addLog (''TTS Error: '' @ err) (clearTimeout u s))\<lparr>speakingState := IDLE\<rparr>"

subsection \<open>Awaiting the service\<close>

text \<open>
  \<^verbatim>\<open>await f(..)\<close> at an await site: when the service function has returned without a
  request, the rest \<open>k\<close> of the handler runs with its result in the same task; when it
  waits for the remote model, the request is put in flight and the handler is suspended.
\<close>

definition await :: "'a async \<Rightarrow> call_site \<Rightarrow> closure \<Rightarrow> ('a \<Rightarrow> App \<Rightarrow> App) \<Rightarrow> App \<Rightarrow> App" where
  "await a site cl k s =
     (case a of
        Done r \<Rightarrow> k r s
      | AwaitAI ms f \<Rightarrow>
          s\<lparr>inflight :=
               inflight s @ [\<lparr>call_id = nextId s, call_timer = ms, call_site = site,
                              call_closure = cl\<rparr>],
            nextId := Suc (nextId s)\<rparr>)"

text \<open>When the request settles with \<open>ai\<close>, the service function finishes and hands its
  result to the rest of the handler.\<close>

definition settle :: "'a async \<Rightarrow> ai_outcome \<Rightarrow> ('a \<Rightarrow> App \<Rightarrow> App) \<Rightarrow> App \<Rightarrow> App" where
  "settle a ai k s = (case a of Done r \<Rightarrow> s | AwaitAI ms f \<Rightarrow> k (f ai) s)"

subsection \<open>handleSubmitAnswer\<close>

text \<open>\<^verbatim>\<open>String.prototype.trim\<close>, on strings of code units below 256.\<close>

definition is_space :: "char \<Rightarrow> bool" where
  "is_space c = (c \<in> {CHR 0x09, CHR 0x0A, CHR 0x0B, CHR 0x0C, CHR 0x0D, CHR 0x20, CHR 0xA0})"

definition js_trim :: "string \<Rightarrow> string" where
  "js_trim t = rev (dropWhile is_space (rev (dropWhile is_space t)))"

definition model_message :: "jsval \<Rightarrow> Message" where
  "model_message t = \<lparr>role = Model, msg_text = t\<rparr>"

text \<open>The \<^verbatim>\<open>finally\<close> block, with the value of \<^verbatim>\<open>speechStarted\<close>.\<close>

definition submit_finally :: "closure \<Rightarrow> bool \<Rightarrow> App \<Rightarrow> App" where
  "submit_finally cl speechStarted s =
     (let s1 = s\<lparr>processingRef := False\<rparr>
      in if \<not> speechStarted \<and> c_mode cl \<noteq> DASHBOARD
         then s1\<lparr>speakingState := IDLE\<rparr>
         else s1)"

text \<open>The \<^verbatim>\<open>catch\<close> and \<^verbatim>\<open>finally\<close> blocks after the \<^verbatim>\<open>try\<close> block has ended, by a throw
  (\<open>Inl\<close>) or with \<^verbatim>\<open>speechStarted\<close> (\<open>Inr\<close>).\<close>

definition submit_catch_finally :: "closure \<Rightarrow> (js_exn + bool) \<times> App \<Rightarrow> App" where
  "submit_catch_finally cl r =
     (case r of
        (Inl e, s) \<Rightarrow> submit_finally cl False (addLog (''Submission Error: '' @ exn_message e) s)
      | (Inr speechStarted, s) \<Rightarrow> submit_finally cl speechStarted s)"

text \<open>The \<^verbatim>\<open>try\<close> block after \<^verbatim>\<open>await GeminiService.generatePlacementQuestion(newHistory)\<close>.\<close>

definition submit_onboarding_try ::
  "closure \<Rightarrow> js_exn + placement_result \<Rightarrow> App \<Rightarrow> (js_exn + bool) \<times> App" where
  "submit_onboarding_try cl r s =
     (case r of
        Inl e \<Rightarrow> (Inl e, s)
      | Inr result \<Rightarrow>
          if isFinished result
          then (let lvl = js_or (level result) (Str ''A2'')
                in (Inr False,
                    addLog (''Assessment finished: '' @ to_string lvl)
                      ((saveLevel lvl s)\<lparr>mode := DASHBOARD\<rparr>)))
          else if truthy (question result)
          then speakText (question result) (c_speakingState cl)
                 (s\<lparr>messages := messages s @ [model_message (question result)]\<rparr>)
          else (Inr False, s))"

text \<open>The \<^verbatim>\<open>try\<close> block after \<^verbatim>\<open>await GeminiService.evaluateTurn(..)\<close>.\<close>

definition submit_practice_try ::
  "closure \<Rightarrow> js_exn + turn_result \<Rightarrow> App \<Rightarrow> (js_exn + bool) \<times> App" where
  "submit_practice_try cl r s =
     (case r of
        Inl e \<Rightarrow> (Inl e, s)
      | Inr result \<Rightarrow>
          (let s1 = (case error result of
                       None \<Rightarrow> s
                     | Some err \<Rightarrow> if err \<noteq> [] then addLog (''API Warning: '' @ err) s else s);
               s2 = s1\<lparr>lastFeedback := Some (feedback result)\<rparr>
           in if \<not> complete result
              then if truthy (nextResponse result)
                   then speakText (nextResponse result) (c_speakingState cl)
                          (s2\<lparr>messages := messages s2 @ [model_message (nextResponse result)]\<rparr>)
                   else (let fb = Str ''I'm listening, could you continue?''
                         in case speakText fb (c_speakingState cl)
                                   (addLog ''Err: Empty AI response'' s2) of
                              (Inl e, s3) \<Rightarrow> (Inl e, s3)
                            | (Inr b, s3) \<Rightarrow>
                                (Inr b, s3\<lparr>messages := messages s3 @ [model_message fb]\<rparr>))
              else speakText (Str ''Great session! You've completed the practice.'')
                     (c_speakingState cl) (s2\<lparr>mode := SUMMARY\<rparr>)))"

definition handleSubmitAnswer :: "json_parse \<Rightarrow> App \<Rightarrow> App" where
  "handleSubmitAnswer parse s =
     (let text = js_trim (transcript s)
      in if text = [] then s
         else (let s1 = s\<lparr>transcript := []\<rparr>
               in if processingRef s1 then s1
                  else (let s2 = addLog (''Submitting: '' @ [CHR 0x22] @ take 20 text @ ''...'' @ [CHR 0x22])
                                   (s1\<lparr>processingRef := True, speakingState := PROCESSING\<rparr>);
                            newHistory = messages s @ [\<lparr>role = User, msg_text = Str text\<rparr>];
                            s3 = s2\<lparr>messages := newHistory\<rparr>;
                            cl = \<lparr>c_mode = mode s, c_speakingState = speakingState s\<rparr>
                        in if mode s = ONBOARDING
                           then await (generatePlacementQuestion parse newHistory)
                                  (Submit_generatePlacementQuestion newHistory) cl
                                  (\<lambda>r s'. submit_catch_finally cl (submit_onboarding_try cl r s'))
                                  s3
                           else if mode s = PRACTICE
                           then if truthy (currentTopic s)
                                then await (evaluateTurn parse (currentTopic s) newHistory text
                                              (userLevel s))
                                       (Submit_evaluateTurn (currentTopic s) newHistory text
                                          (userLevel s)) cl
                                       (\<lambda>r s'. submit_catch_finally cl
                                                  (submit_practice_try cl r s'))
                                       s3
                                else submit_finally cl False s3
                           else submit_finally cl False s3)))"

subsection \<open>Speech input\<close>

definition startListening :: "App \<Rightarrow> App" where
  "startListening s =
     (let s1 = (if recognitionRef s = None \<and> hasSpeechRecognition s
                then s\<lparr>recognitionRef := Some (speakingState s)\<rparr>
                else s)
      in s1\<lparr>transcript := []\<rparr>)"

definition stopListening :: "App \<Rightarrow> App" where
  "stopListening s = s\<lparr>speakingState := IDLE\<rparr>"

definition handleRetry :: "App \<Rightarrow> App" where
  "handleRetry s = s\<lparr>transcript := [], speakingState := IDLE\<rparr>"

definition recognition_onstart :: "App \<Rightarrow> App" where
  "recognition_onstart s = s\<lparr>speakingState := LISTENING\<rparr>"

text \<open>The loop of \<^verbatim>\<open>onresult\<close> over \<^verbatim>\<open>event.results\<close> from \<^verbatim>\<open>event.resultIndex\<close> on; a
  result is \<^verbatim>\<open>isFinal\<close> and its first alternative's transcript.\<close>

fun onresult_loop :: "(bool \<times> string) list \<Rightarrow> string \<Rightarrow> App \<Rightarrow> string \<times> App" where
  "onresult_loop [] finalTrans s = (finalTrans, s)"
| "onresult_loop ((isFinal, t) # rs) finalTrans s =
     (if isFinal then onresult_loop rs (finalTrans @ t) s
      else onresult_loop rs finalTrans (s\<lparr>transcript := t\<rparr>))"

definition recognition_onresult :: "(bool \<times> string) list \<Rightarrow> App \<Rightarrow> App" where
  "recognition_onresult results s =
     (case onresult_loop results [] s of
        (finalTrans, s1) \<Rightarrow> if finalTrans \<noteq> [] then s1\<lparr>transcript := finalTrans\<rparr> else s1)"

definition recognition_onerror :: "string \<Rightarrow> App \<Rightarrow> App" where
  "recognition_onerror err s = (addLog (''Mic Error: '' @ err) s)\<lparr>speakingState := IDLE\<rparr>"

definition recognition_onend :: "SpeakingState \<Rightarrow> App \<Rightarrow> App" where
  "recognition_onend captured s =
     (if captured = LISTENING then s\<lparr>speakingState := IDLE\<rparr> else s)"

subsection \<open>Game actions\<close>

definition startOnboarding_catch :: "js_exn \<Rightarrow> App \<Rightarrow> App" where
  "startOnboarding_catch e s =
     (addLog (''Start Error: '' @ exn_toString e) s)\<lparr>speakingState := IDLE\<rparr>"

definition startOnboarding_rest :: "closure \<Rightarrow> js_exn + placement_result \<Rightarrow> App \<Rightarrow> App" where
  "startOnboarding_rest cl r s =
     (case r of
        Inl e \<Rightarrow> startOnboarding_catch e s
      | Inr result \<Rightarrow>
          (let s1 = s\<lparr>speakingState := IDLE\<rparr>
           in if truthy (question result)
              then (case speakText (question result) (c_speakingState cl)
                           (s1\<lparr>messages := [model_message (question result)]\<rparr>) of
                      (Inl e, s2) \<Rightarrow> startOnboarding_catch e s2
                    | (Inr b, s2) \<Rightarrow> s2)
              else s1))"

definition startOnboarding :: "json_parse \<Rightarrow> App \<Rightarrow> App" where
  "startOnboarding parse s =
     (let cl = \<lparr>c_mode = mode s, c_speakingState = speakingState s\<rparr>
      in await (generatePlacementQuestion parse [])
           StartOnboarding_generatePlacementQuestion cl (startOnboarding_rest cl)
           (addLog ''Starting Assessment...''
              (s\<lparr>mode := ONBOARDING, messages := [], speakingState := PROCESSING\<rparr>)))"

definition handleManualSelect :: "string \<Rightarrow> App \<Rightarrow> App" where
  "handleManualSelect lvl s = (saveLevel (Str lvl) s)\<lparr>mode := DASHBOARD\<rparr>"

definition startPractice_catch :: "js_exn \<Rightarrow> App \<Rightarrow> App" where
  "startPractice_catch e s =
     (addLog (''Topic Gen Error: '' @ exn_toString e) s)
       \<lparr>speakingState := IDLE, mode := DASHBOARD\<rparr>"

definition startPractice_rest :: "closure \<Rightarrow> js_exn + jsval \<Rightarrow> App \<Rightarrow> App" where
  "startPractice_rest cl r s =
     (case r of
        Inl e \<Rightarrow> startPractice_catch e s
      | Inr topic \<Rightarrow>
          (let s1 = s\<lparr>currentTopic := topic\<rparr>
           in case get_prop topic ''title'' of
                Inl e \<Rightarrow> startPractice_catch e s1
              | Inr title \<Rightarrow>
                  (let s2 = addLog (''Topic: '' @ to_string title) s1;
                       introText = js_or (read_prop topic ''openingLine'')
                                     (Str (''Hi! Let's talk about '' @ to_string title @ ''.''));
                       s3 = s2\<lparr>messages := [model_message introText]\<rparr>
                   in s3\<lparr>introTimeouts :=
                            introTimeouts s3 @
                              [\<lparr>it_timer = 100, it_text = introText,
                                it_speakingState = c_speakingState cl\<rparr>]\<rparr>)))"

definition startPractice :: "json_parse \<Rightarrow> App \<Rightarrow> App" where
  "startPractice parse s =
     (let cl = \<lparr>c_mode = mode s, c_speakingState = speakingState s\<rparr>
      in await (generateDailyTopic parse (userLevel s))
           (StartPractice_generateDailyTopic (userLevel s)) cl (startPractice_rest cl)
           (addLog ''Generating Daily Topic...''
              (s\<lparr>mode := PRACTICE, messages := [], lastFeedback := None, transcript := [],
                 speakingState := PROCESSING\<rparr>)))"

text \<open>The callback of the 100 ms timer: an exception of \<^verbatim>\<open>speakText\<close> escapes to the
  event loop.\<close>

definition introTimeout_fires :: "intro_timeout \<Rightarrow> App \<Rightarrow> App" where
  "introTimeout_fires t s = snd (speakText (it_text t) (it_speakingState t) s)"

definition retakeAssessment :: "App \<Rightarrow> App" where
  "retakeAssessment s =
     s\<lparr>localStorage := None, userLevel := Str ''A2'', mode := LANDING,
       showLevelSelector := False\<rparr>"

text \<open>The request \<open>c\<close> settles with \<open>ai\<close>: the suspended handler goes on.\<close>

definition resume :: "json_parse \<Rightarrow> call \<Rightarrow> ai_outcome \<Rightarrow> App \<Rightarrow> App" where
  "resume parse c ai s =
     (let cl = call_closure c
      in case call_site c of
           Submit_generatePlacementQuestion newHistory \<Rightarrow>
             settle (generatePlacementQuestion parse newHistory) ai
               (\<lambda>r s'. submit_catch_finally cl (submit_onboarding_try cl r s')) s
         | Submit_evaluateTurn topic newHistory text lvl \<Rightarrow>
             settle (evaluateTurn parse topic newHistory text lvl) ai
               (\<lambda>r s'. submit_catch_finally cl (submit_practice_try cl r s')) s
         | StartOnboarding_generatePlacementQuestion \<Rightarrow>
             settle (generatePlacementQuestion parse []) ai (startOnboarding_rest cl) s
         | StartPractice_generateDailyTopic lvl \<Rightarrow>
             settle (generateDailyTopic parse lvl) ai (startPractice_rest cl) s)"

section \<open>The event loop\<close>

text \<open>
  Everything that happens to the component is one of these events: a click on a
  control, an event of the speech recognition or of an utterance, a request to the
  remote model settling, the speech engine changing its behaviour, and one millisecond
  passing. Each task runs to its end and is followed by a render.
\<close>

datatype event =
    Click_StartAssessment
  | Click_Skip
  | Click_Back
  | Click_Level string
  | Click_StartDailyTask
  | Click_RetakeAssessment
  | Click_ChangeLevel
  | Click_BackToDashboard
  | Click_Bug
  | Click_Retry
  | Click_Volume
  | Click_Submit
  | Click_Mic
  | Click_EndSession
  | Click_CloseLogs
  | Recognition_onstart
  | Recognition_onresult "(bool \<times> string) list"
  | Recognition_onerror string
  | Recognition_onend
  | Utterance_onstart nat
  | Utterance_onend nat
  | Utterance_onerror nat string
  | AI_settles nat ai_outcome
  | Synth_becomes synth_behaviour
  | Tick

text \<open>The keys of \<^verbatim>\<open>CEFR_DESCRIPTIONS\<close>.\<close>

definition CEFR_levels :: "string list" where
  "CEFR_levels = [''A1'', ''A2'', ''B1'', ''B2'', ''C1'', ''C2'']"

definition isReviewing :: "App \<Rightarrow> bool" where
  "isReviewing s = (speakingState s = IDLE \<and> length (transcript s) > 0)"

text \<open>The view with the controls of a session is rendered when \<^verbatim>\<open>mode\<close> is none of
  LANDING, DASHBOARD and SUMMARY.\<close>

definition interaction_view :: "App \<Rightarrow> bool" where
  "interaction_view s = (mode s \<noteq> LANDING \<and> mode s \<noteq> DASHBOARD \<and> mode s \<noteq> SUMMARY)"

text \<open>
  The handler of an event. A click does something only where the render shows its
  control, enabled; an event of the recognition or of an utterance only when its handler
  has been attached; a settling request only while it is in flight.
\<close>

definition handle :: "json_parse \<Rightarrow> event \<Rightarrow> App \<Rightarrow> App" where
  "handle parse e s =
     (case e of
        Click_StartAssessment \<Rightarrow>
          if mode s = LANDING \<and> \<not> showLevelSelector s then startOnboarding parse s else s
      | Click_Skip \<Rightarrow>
          if mode s = LANDING \<and> \<not> showLevelSelector s then s\<lparr>showLevelSelector := True\<rparr> else s
      | Click_Back \<Rightarrow>
          if mode s = LANDING \<and> showLevelSelector s then s\<lparr>showLevelSelector := False\<rparr> else s
      | Click_Level lvl \<Rightarrow>
          if mode s = LANDING \<and> showLevelSelector s \<and> lvl \<in> set CEFR_levels
          then handleManualSelect lvl s else s
      | Click_StartDailyTask \<Rightarrow>
          if mode s = DASHBOARD then startPractice parse s else s
      | Click_RetakeAssessment \<Rightarrow>
          if mode s = DASHBOARD then retakeAssessment s else s
      | Click_ChangeLevel \<Rightarrow>
          if mode s = DASHBOARD then s\<lparr>mode := LANDING, showLevelSelector := True\<rparr> else s
      | Click_BackToDashboard \<Rightarrow>
          if mode s = SUMMARY then s\<lparr>mode := DASHBOARD\<rparr> else s
      | Click_Bug \<Rightarrow>
          if interaction_view s then s\<lparr>showLogs := \<not> showLogs s\<rparr> else s
      | Click_Retry \<Rightarrow>
          if interaction_view s \<and> isReviewing s then handleRetry s else s
      | Click_Volume \<Rightarrow> s
      | Click_Submit \<Rightarrow>
          if interaction_view s \<and> isReviewing s then handleSubmitAnswer parse s else s
      | Click_Mic \<Rightarrow>
          if interaction_view s \<and> \<not> isReviewing s
             \<and> \<not> (speakingState s = PROCESSING \<or> speakingState s = SPEAKING)
          then (if speakingState s = LISTENING then stopListening s else startListening s)
          else s
      | Click_EndSession \<Rightarrow>
          if interaction_view s \<and> mode s = PRACTICE then s\<lparr>mode := SUMMARY\<rparr> else s
      | Click_CloseLogs \<Rightarrow>
          if interaction_view s \<and> showLogs s then s\<lparr>showLogs := False\<rparr> else s
      | Recognition_onstart \<Rightarrow>
          (case recognitionRef s of None \<Rightarrow> s | Some captured \<Rightarrow> recognition_onstart s)
      | Recognition_onresult results \<Rightarrow>
          (case recognitionRef s of None \<Rightarrow> s | Some captured \<Rightarrow> recognition_onresult results s)
      | Recognition_onerror err \<Rightarrow>
          (case recognitionRef s of None \<Rightarrow> s | Some captured \<Rightarrow> recognition_onerror err s)
      | Recognition_onend \<Rightarrow>
          (case recognitionRef s of None \<Rightarrow> s | Some captured \<Rightarrow> recognition_onend captured s)
      | Utterance_onstart u \<Rightarrow>
          if u \<in> fst ` set (utterances s) then utterance_onstart u s else s
      | Utterance_onend u \<Rightarrow>
          if u \<in> fst ` set (utterances s) then utterance_onend u s else s
      | Utterance_onerror u err \<Rightarrow>
          if u \<in> fst ` set (utterances s) then utterance_onerror u err s else s
      | AI_settles i ai \<Rightarrow>
          (case find (\<lambda>c. call_id c = i) (inflight s) of
             None \<Rightarrow> s
           | Some c \<Rightarrow>
               resume parse c ai (s\<lparr>inflight := filter (\<lambda>c. call_id c \<noteq> i) (inflight s)\<rparr>))
      | Synth_becomes b \<Rightarrow> s\<lparr>synth := b\<rparr>
      | Tick \<Rightarrow> s)"

text \<open>A task followed by its render: the effects of the render compare with the render
  before the task.\<close>

definition task :: "(App \<Rightarrow> App) \<Rightarrow> App \<Rightarrow> App" where
  "task f s = watchdog_effect (speakingState s) (f s)"

text \<open>
  One millisecond passes: every timer has one millisecond less, and the callbacks of the
  timers that are due run, each as a task. Timers due in the same millisecond run in
  the order they were set; of two timers due together the one of longer delay was set
  first: the watchdog (16000), the request timeouts (15000), the start timeouts (2000),
  the intro timeouts (100).
\<close>

definition elapse :: "App \<Rightarrow> App" where
  "elapse s =
     s\<lparr>watchdog := map_option (\<lambda>n. n - 1) (watchdog s),
       inflight := map (\<lambda>c. c\<lparr>call_timer := call_timer c - 1\<rparr>) (inflight s),
       startTimeouts := map (\<lambda>t. t\<lparr>st_timer := st_timer t - 1\<rparr>) (startTimeouts s),
       introTimeouts := map (\<lambda>t. t\<lparr>it_timer := it_timer t - 1\<rparr>) (introTimeouts s)\<rparr>"

definition fire_watchdog :: "App \<Rightarrow> App" where
  "fire_watchdog s =
     (if watchdog s = Some 0 then task (\<lambda>s. watchdog_fires (s\<lparr>watchdog := None\<rparr>)) s else s)"

definition fire_call :: "json_parse \<Rightarrow> App \<Rightarrow> call \<Rightarrow> App" where
  "fire_call parse s c =
     task (\<lambda>s. resume parse c (Rejected AI_Timeout)
                 (s\<lparr>inflight := filter (\<lambda>d. call_id d \<noteq> call_id c) (inflight s)\<rparr>)) s"

definition fire_calls :: "json_parse \<Rightarrow> App \<Rightarrow> App" where
  "fire_calls parse s = foldl (fire_call parse) s (filter (\<lambda>c. call_timer c = 0) (inflight s))"

definition fire_startTimeout :: "App \<Rightarrow> start_timeout \<Rightarrow> App" where
  "fire_startTimeout s t =
     task (\<lambda>s. startTimeout_fires (st_speakingState t) (clearTimeout (st_id t) s)) s"

definition fire_startTimeouts :: "App \<Rightarrow> App" where
  "fire_startTimeouts s =
     foldl fire_startTimeout s (filter (\<lambda>t. st_timer t = 0) (startTimeouts s))"

definition fire_introTimeout :: "App \<Rightarrow> intro_timeout \<Rightarrow> App" where
  "fire_introTimeout s t = task (introTimeout_fires t) s"

definition fire_introTimeouts :: "App \<Rightarrow> App" where
  "fire_introTimeouts s =
     (let due = filter (\<lambda>t. it_timer t = 0) (introTimeouts s)
      in foldl fire_introTimeout
           (s\<lparr>introTimeouts := filter (\<lambda>t. it_timer t \<noteq> 0) (introTimeouts s)\<rparr>) due)"

definition tick :: "json_parse \<Rightarrow> App \<Rightarrow> App" where
  "tick parse s =
     fire_introTimeouts (fire_startTimeouts (fire_calls parse (fire_watchdog (elapse s))))"

definition step :: "json_parse \<Rightarrow> event \<Rightarrow> App \<Rightarrow> App" where
  "step parse e s = (if e = Tick then tick parse s else task (handle parse e) s)"

fun run :: "json_parse \<Rightarrow> App \<Rightarrow> event list \<Rightarrow> App" where
  "run parse s [] = s"
| "run parse s (e # es) = run parse (step parse e s) es"


section \<open>Notions used in the properties\<close>

text \<open>What the promise of an async function is settled with, when the request it makes
  (if it makes one) settles with \<open>ai\<close>.\<close>

definition result_of :: "'a async \<Rightarrow> ai_outcome \<Rightarrow> 'a" where
  "result_of a ai = (case a of Done r \<Rightarrow> r | AwaitAI ms f \<Rightarrow> f ai)"


text \<open>The identifiers of the requests in flight have been handed out already.\<close>

definition ids_fresh :: "App \<Rightarrow> bool" where
  "ids_fresh s = list_all (\<lambda>c. call_id c < nextId s) (inflight s)"

text \<open>
  Stated after the spec's words, for the comparison with \<open>cleanJSON\<close>: the first
  well-formed object-shaped substring of a payload is the substring that starts
  earliest (and, of those, ends earliest) among the substrings that open with a brace,
  close with a brace and parse to an object.
\<close>

definition spec_object_shaped :: "json_parse \<Rightarrow> string \<Rightarrow> bool" where
  "spec_object_shaped parse m =
     (m \<noteq> [] \<and> hd m = CHR ''{'' \<and> last m = CHR ''}''
      \<and> (case parse m of Inr (Obj kvs) \<Rightarrow> True | _ \<Rightarrow> False))"

fun spec_object_prefix :: "json_parse \<Rightarrow> string \<Rightarrow> string \<Rightarrow> string option" where
  "spec_object_prefix parse acc [] = None"
| "spec_object_prefix parse acc (c # cs) =
     (if spec_object_shaped parse (acc @ [c]) then Some (acc @ [c])
      else spec_object_prefix parse (acc @ [c]) cs)"

fun spec_first_wellformed_object :: "json_parse \<Rightarrow> string \<Rightarrow> string option" where
  "spec_first_wellformed_object parse [] = None"
| "spec_first_wellformed_object parse (c # cs) =
     (case spec_object_prefix parse [] (c # cs) of
        Some m \<Rightarrow> Some m
      | None \<Rightarrow> spec_first_wellformed_object parse cs)"

section \<open>Sample inputs\<close>

text \<open>
  A stand-in for \<^verbatim>\<open>JSON.parse\<close> in the examples: it parses the payloads listed here,
  as \<^verbatim>\<open>JSON.parse\<close> does, and throws on every other text. The examples apply it to the
  listed payloads and to texts that are not JSON only.
\<close>

definition JSON_parse_sample :: json_parse where
  \<open>JSON_parse_sample t =
     (if t = ''{}'' then Inr (Obj [])
      else if t = ''{"level":"B2"}'' then Inr (Obj [(''level'', Str ''B2'')])
      else if t = ''{"question":"What do you do?"}''
      then Inr (Obj [(''question'', Str ''What do you do?'')])
      else if t = ''{"isGood":false,"correction":"I am exhausted.","advice":"Use 'exhausted' not 'very tired'.","score":2,"nextResponse":"I see, go on."}''
      then Inr (Obj [(''isGood'', Bool False), (''correction'', Str ''I am exhausted.''),
                     (''advice'', Str ''Use 'exhausted' not 'very tired'.''),
                     (''score'', Num ''2''), (''nextResponse'', Str ''I see, go on.'')])
      else Inl (Exn ''SyntaxError'' ''Unexpected token''))\<close>

text \<open>The component just mounted in a browser with nothing stored, speech recognition
  and a working speech engine.\<close>

definition fresh_App :: App where
  "fresh_App = mount None True SynthOk"

text \<open>The user taps the microphone, the recognition returns \<open>t\<close> as its final
  transcript and ends, and the user taps again to stop.\<close>

definition dictate :: "string \<Rightarrow> event list" where
  "dictate t =
     [Click_Mic, Recognition_onstart, Recognition_onresult [(True, t)], Recognition_onend,
      Click_Mic]"

text \<open>The request \<open>n\<close> settles with a question, which is spoken to its end; the
  utterance has the next identifier.\<close>

definition asked :: "nat \<Rightarrow> event list" where
  \<open>asked n =
     [AI_settles n (Responded (Some ''{"question":"What do you do?"}'')),
      Utterance_onstart (Suc n), Utterance_onend (Suc n)]\<close>

text \<open>A placement session in which the recognition has returned a final transcript of
  one blank, now under review.\<close>

definition blank_review :: App where
  "blank_review =
     run JSON_parse_sample fresh_App ([Click_StartAssessment] @ asked 0 @ dictate '' '')"

text \<open>A placement session after four answers, the fifth under review.\<close>

definition fifth_answer_review :: App where
  "fifth_answer_review =
     run JSON_parse_sample fresh_App
       ([Click_StartAssessment] @ asked 0
        @ dictate ''I teach.'' @ [Click_Submit] @ asked 2
        @ dictate ''I teach.'' @ [Click_Submit] @ asked 4
        @ dictate ''I teach.'' @ [Click_Submit] @ asked 6
        @ dictate ''I teach.'' @ [Click_Submit] @ asked 8
        @ dictate ''I teach.'')"

text \<open>Five answers of the user to five questions.\<close>

definition five_turns :: "Message list" where
  "five_turns =
     concat (replicate 5 [model_message (Str ''What do you do?''),
                          \<lparr>role = User, msg_text = Str ''I teach.''\<rparr>])"

text \<open>The dashboard after a practice session that was ended by the user: the level B2 was
  stored before, the request for a topic timed out.\<close>

definition dashboard_after_practice :: App where
  "dashboard_after_practice =
     run JSON_parse_sample (mount (Some ''B2'') True SynthOk)
       [Click_StartDailyTask, AI_settles 0 (Rejected AI_Timeout), Click_EndSession,
        Click_BackToDashboard]"

text \<open>A practice session on the canned topic (the request for a topic was rejected):
  the opening line has been spoken, the first answer is under review.\<close>

definition practice_review :: App where
  "practice_review =
     run JSON_parse_sample (mount (Some ''B2'') True SynthOk)
       ([Click_StartDailyTask, AI_settles 0 (Rejected AI_Timeout)] @ replicate 100 Tick
        @ [Utterance_onstart 1, Utterance_onend 1] @ dictate ''I am very tired.'')"


text \<open>The requests in flight that were made by a submission.\<close>

definition is_submit_call :: "call \<Rightarrow> bool" where
  "is_submit_call c =
     (case call_site c of
        Submit_generatePlacementQuestion h \<Rightarrow> True
      | Submit_evaluateTurn topic h t lvl \<Rightarrow> True
      | StartOnboarding_generatePlacementQuestion \<Rightarrow> False
      | StartPractice_generateDailyTopic lvl \<Rightarrow> False)"

definition submit_calls :: "App \<Rightarrow> call list" where
  "submit_calls s = filter is_submit_call (inflight s)"

text \<open>
  What holds of the timers and the guard while a tick is being processed: no request has
  more than its 15000 ms left; at most one request of a submission is in flight, and
  while it is the guard is set and the watchdog, if set, comes after the timeout of the
  request; the watchdog is set exactly in the state PROCESSING, with at most 16000 ms.
\<close>

definition timers_ok :: "App \<Rightarrow> bool" where
  "timers_ok s =
     (list_all (\<lambda>c. call_timer c \<le> 15000) (inflight s)
      \<and> length (submit_calls s) \<le> 1
      \<and> list_all (\<lambda>c. processingRef s
                        \<and> (case watchdog s of None \<Rightarrow> True | Some w \<Rightarrow> call_timer c < w))
           (submit_calls s)
      \<and> (case watchdog s of
            None \<Rightarrow> speakingState s \<noteq> PROCESSING
          | Some w \<Rightarrow> speakingState s = PROCESSING \<and> w \<le> 16000))"

text \<open>Between two events, moreover, no timer is due.\<close>

definition loop_invariant :: "App \<Rightarrow> bool" where
  "loop_invariant s =
     (timers_ok s \<and> watchdog s \<noteq> Some 0 \<and> list_all (\<lambda>c. 0 < call_timer c) (inflight s))"

text \<open>What a task may do to the requests and the guard: nothing; or put one request in
  flight, which a submission does only with the guard clear, setting it, from IDLE to
  PROCESSING; or take the requests of one identifier out, clearing the guard only
  if no request of a submission has another identifier.\<close>

definition task_effect :: "App \<Rightarrow> App \<Rightarrow> bool" where
  "task_effect s s' =
     (watchdog s' = watchdog s
      \<and> ((inflight s' = inflight s \<and> processingRef s' = processingRef s)
          \<or> (\<exists>c. inflight s' = inflight s @ [c] \<and> call_timer c = 15000
                \<and> (if is_submit_call c
                    then \<not> processingRef s \<and> processingRef s'
                         \<and> speakingState s = IDLE \<and> speakingState s' = PROCESSING
                    else processingRef s' = processingRef s))
          \<or> (\<exists>i. inflight s' = filter (\<lambda>d. call_id d \<noteq> i) (inflight s)
                \<and> (processingRef s' = processingRef s
                    \<or> (\<not> processingRef s' \<and> list_all (\<lambda>d. call_id d = i) (submit_calls s))))))"

text \<open>The callbacks of the timers change the interaction state to IDLE or not at all,
  never set the guard and leave the watchdog to the effect.\<close>

definition quiet :: "(App \<Rightarrow> App) \<Rightarrow> bool" where
  "quiet f =
     (\<forall>s. watchdog (f s) = watchdog s
          \<and> (speakingState (f s) = speakingState s \<or> speakingState (f s) = IDLE)
          \<and> (processingRef (f s) \<longrightarrow> processingRef s))"

text \<open>
  A placement session in which the user has stopped the recognition and submitted the
  interim transcript; the request is in flight when the recognition delivers its final
  result and then reports an error, which puts the interaction state back to IDLE: the
  final transcript is under review while the guard is set.
\<close>

definition resubmit_review :: App where
  "resubmit_review =
     run JSON_parse_sample fresh_App
       ([Click_StartAssessment] @ asked 0
        @ [Click_Mic, Recognition_onstart, Recognition_onresult [(False, ''I tea'')],
           Click_Mic, Click_Submit,
           Recognition_onresult [(True, ''I teach.'')], Recognition_onerror ''network''])"


section \<open>Verified properties\<close>

subsection \<open>Evaluating the examples\<close>

lemmas service_defs =
  generatePlacementQuestion_def placement_evaluation_try_def placement_question_try_def
  generateDailyTopic_def topic_try_def fallback_topic_def evaluateTurn_def turn_prompt_def
  turn_try_def
  withTimeout_def cleanJSON_def match_braces_def text_or_def userTurnCount_def
  get_prop_def read_prop_def js_or_def AI_Timeout_def

lemmas handler_defs =
  mount_def load_level_def initial_App_def addLog_def saveLevel_def
  watchdog_fires_def watchdog_effect_def new_startTimeout_def speakText_def clearTimeout_def
  startTimeout_fires_def utterance_onstart_def utterance_onend_def utterance_onerror_def
  await_def settle_def js_trim_def is_space_def model_message_def submit_finally_def
  submit_catch_finally_def submit_onboarding_try_def submit_practice_try_def
  handleSubmitAnswer_def startListening_def stopListening_def handleRetry_def
  recognition_onstart_def recognition_onresult_def recognition_onerror_def
  recognition_onend_def startOnboarding_catch_def startOnboarding_rest_def
  startOnboarding_def handleManualSelect_def startPractice_catch_def startPractice_rest_def
  startPractice_def introTimeout_fires_def retakeAssessment_def resume_def

lemma replicate_numeral: "replicate (numeral v) x = x # replicate (numeral v - 1) x"
  by (simp add: numeral_eq_Suc)

lemmas sample_defs =
  JSON_parse_sample_def fresh_App_def dictate_def asked_def replicate_numeral

lemmas loop_defs =
  CEFR_levels_def isReviewing_def interaction_view_def handle_def task_def elapse_def
  fire_watchdog_def fire_call_def fire_calls_def fire_startTimeout_def fire_startTimeouts_def
  fire_introTimeout_def fire_introTimeouts_def tick_def step_def Let_def

subsection \<open>Submitting a blank transcript\<close>

text \<open>
  C10. When the pending transcript is empty or only whitespace, \<^verbatim>\<open>handleSubmitAnswer\<close>
  returns the state it was called in, and so does the click on the submit control: no
  message is appended, no request is put in flight, and the interaction state, the mode
  and the re-entrancy guard are as before.
\<close>

theorem submit_blank_transcript_noop:
  assumes "js_trim (transcript s) = []"
  shows "handleSubmitAnswer parse s = s \<and> step parse Click_Submit s = s"
proof -
  have h: "handleSubmitAnswer parse s = s"
    using assms by (simp add: handleSubmitAnswer_def)
  have "handle parse Click_Submit s = s"
    by (simp add: handle_def h)
  then have "step parse Click_Submit s = s"
    by (simp add: step_def task_def watchdog_effect_def)
  with h show ?thesis by simp
qed

lemma blank_review_transcript: "transcript blank_review = '' ''"
  unfolding blank_review_def by (simp add: sample_defs service_defs handler_defs loop_defs)

theorem submit_blank_transcript_noop_witness:
  "js_trim (transcript blank_review) = []
   \<and> handleSubmitAnswer JSON_parse_sample blank_review = blank_review
   \<and> step JSON_parse_sample Click_Submit blank_review = blank_review"
proof -
  have t: "js_trim (transcript blank_review) = []"
    by (simp add: blank_review_transcript js_trim_def is_space_def)
  show ?thesis
    using t submit_blank_transcript_noop [OF t] by simp
qed

subsection \<open>Retaking the assessment\<close>

text \<open>
  C8, as the claim states it, fails: \<^verbatim>\<open>retakeAssessment\<close> does not touch the conversation
  history. After a practice session the messages of that session are still there when
  the user has clicked on "Retake Assessment".
\<close>

theorem retake_keeps_history_counterexample:
  "messages (step JSON_parse_sample Click_RetakeAssessment dashboard_after_practice) \<noteq> []"
  unfolding dashboard_after_practice_def
  by (simp add: sample_defs service_defs handler_defs loop_defs)

text \<open>
  C8, amended. \<^verbatim>\<open>retakeAssessment\<close> removes the persisted level, sets the level in memory
  back to A2 and shows the landing view without the level selector; it leaves the
  conversation history as it is. The history is emptied by the start of the next
  assessment, which is the one thing the landing view then offers besides choosing a
  level.
\<close>

theorem retake_clears_level_and_lands:
  "localStorage (retakeAssessment s) = None
   \<and> userLevel (retakeAssessment s) = Str ''A2''
   \<and> mode (retakeAssessment s) = LANDING
   \<and> \<not> showLevelSelector (retakeAssessment s)
   \<and> messages (retakeAssessment s) = messages s
   \<and> messages (step parse Click_StartAssessment (retakeAssessment s)) = []"
  by (simp add: retakeAssessment_def step_def task_def watchdog_effect_def handle_def
        startOnboarding_def await_def generatePlacementQuestion_def userTurnCount_def
        withTimeout_def addLog_def)

subsection \<open>The persisted level\<close>

text \<open>
  C9. \<^verbatim>\<open>saveLevel\<close> of a level (a non-empty string) stores that string; the component
  mounted on what was stored has the level as its \<^verbatim>\<open>userLevel\<close> and starts in the
  dashboard; mounted on an empty storage it starts in the landing view.
\<close>

theorem saved_level_restored_at_startup:
  assumes "lvl \<noteq> []"
  shows "localStorage (saveLevel (Str lvl) s) = Some lvl
         \<and> userLevel (mount (localStorage (saveLevel (Str lvl) s)) recognition engine) = Str lvl
         \<and> mode (mount (localStorage (saveLevel (Str lvl) s)) recognition engine) = DASHBOARD
         \<and> mode (mount (Some lvl) recognition engine) = DASHBOARD
         \<and> mode (mount None recognition engine) = LANDING"
  using assms
  by (simp add: saveLevel_def mount_def load_level_def initial_App_def addLog_def)

theorem saved_level_restored_at_startup_witness:
  "''C1'' \<noteq> []
   \<and> localStorage (saveLevel (Str ''C1'') fresh_App) = Some ''C1''
   \<and> userLevel (mount (localStorage (saveLevel (Str ''C1'') fresh_App)) True SynthOk) = Str ''C1''
   \<and> mode (mount (localStorage (saveLevel (Str ''C1'') fresh_App)) True SynthOk) = DASHBOARD
   \<and> mode (mount (Some ''C1'') True SynthOk) = DASHBOARD
   \<and> mode (mount None True SynthOk) = LANDING"
proof -
  have n: "''C1'' \<noteq> []" by simp
  from n saved_level_restored_at_startup [OF n, of fresh_App True SynthOk]
  show ?thesis by (rule conjI)
qed

subsection \<open>Failures of the remote Evaluator\<close>

lemma cleanJSON_empty [simp]: "cleanJSON parse [] = []"
  by (simp add: cleanJSON_def match_braces_def split: sum.splits)








text \<open>Without a topic object the prompt cannot be built: short of the fifth user turn
  \<^verbatim>\<open>evaluateTurn(null, ..)\<close> is rejected with the TypeError and makes no request.\<close>

lemma evaluateTurn_without_topic:
  assumes "topic = Undefined \<or> topic = Null" and "userTurnCount history < 5"
  shows "\<exists>m. evaluateTurn parse topic history t lvl = Done (Inl (Exn ''TypeError'' m))"
  using assms by (auto simp: evaluateTurn_def turn_prompt_def get_prop_def)






lemma five_turns_count: "userTurnCount five_turns = 5"
  by (simp add: five_turns_def userTurnCount_def model_message_def eval_nat_numeral)


subsection \<open>cleanJSON\<close>

lemma cleanJSON_strict: "parse text = Inr v \<Longrightarrow> cleanJSON parse text = text"
  by (simp add: cleanJSON_def)

lemma match_braces_wrapped:
  assumes "CHR ''{'' \<notin> set pre" and "CHR ''}'' \<notin> set post"
  shows "match_braces (pre @ [CHR ''{''] @ mid @ [CHR ''}''] @ post)
           = Some ([CHR ''{''] @ mid @ [CHR ''}''])"
proof -
  have 1: "dropWhile (\<lambda>c. c \<noteq> CHR ''{'') (pre @ [CHR ''{''] @ mid @ [CHR ''}''] @ post)
             = [CHR ''{''] @ mid @ [CHR ''}''] @ post"
    using assms(1) by (auto simp: dropWhile_append3)
  have 2: "dropWhile (\<lambda>c. c \<noteq> CHR ''}'') (rev post @ [CHR ''}''] @ rev mid @ [CHR ''{''])
             = [CHR ''}''] @ rev mid @ [CHR ''{'']"
    using assms(2) by (auto simp: dropWhile_append3)
  show ?thesis
    unfolding match_braces_def Let_def 1 using 2 by simp
qed

text \<open>A payload that holds one object with brace-free text around it (a markdown
  fence, a sentence) is reduced to the object.\<close>

lemma cleanJSON_wrapped:
  assumes "isl (parse (pre @ [CHR ''{''] @ mid @ [CHR ''}''] @ post))"
    and "CHR ''{'' \<notin> set pre" and "CHR ''}'' \<notin> set post"
  shows "cleanJSON parse (pre @ [CHR ''{''] @ mid @ [CHR ''}''] @ post)
           = [CHR ''{''] @ mid @ [CHR ''}'']"
  using assms(1) match_braces_wrapped [OF assms(2,3), of mid]
  by (auto simp: cleanJSON_def isl_def)

text \<open>
  C6 fails on the code at the payload \<^verbatim>\<open>{"level":"B2"} {}\<close>. It is not JSON; its first
  well-formed object-shaped substring is \<^verbatim>\<open>{"level":"B2"}\<close>; \<open>cleanJSON\<close> returns the
  span from the first opening to the last closing brace, which is the whole payload and
  is not JSON; so the final evaluation falls back to B1 where the claim has the object
  extracted and parsed.
\<close>

theorem cleanJSON_greedy_span_at_two_objects:
  \<open>isl (JSON_parse_sample ''{"level":"B2"} {}'')
   \<and> spec_first_wellformed_object JSON_parse_sample ''{"level":"B2"} {}''
       = Some ''{"level":"B2"}''
   \<and> cleanJSON JSON_parse_sample ''{"level":"B2"} {}'' = ''{"level":"B2"} {}''
   \<and> isl (JSON_parse_sample (cleanJSON JSON_parse_sample ''{"level":"B2"} {}''))
   \<and> result_of (generatePlacementQuestion JSON_parse_sample five_turns)
         (Responded (Some ''{"level":"B2"} {}''))
       = Inr \<lparr>question = Undefined, isFinished = True, level = Str ''B1''\<rparr>\<close>
  by (simp add: JSON_parse_sample_def service_defs spec_object_shaped_def result_of_def
        five_turns_count [unfolded userTurnCount_def])

subsection \<open>Requests in flight\<close>




subsection \<open>Placement: the fifth turn\<close>






lemma js_or_again [simp]: "js_or (js_or a b) b = js_or a b"
  by (simp add: js_or_def)



lemma fifth_answer_review_state:
  "let s = fifth_answer_review
   in mode s = ONBOARDING \<and> speakingState s = IDLE \<and> \<not> processingRef s
      \<and> transcript s = ''I teach.'' \<and> messages s = take 9 five_turns
      \<and> inflight s = [] \<and> nextId s = 10"
  unfolding fifth_answer_review_def
  by (simp add: sample_defs service_defs handler_defs loop_defs five_turns_def)

lemma fifth_answer_review_facts:
  "mode fifth_answer_review = ONBOARDING"
  "speakingState fifth_answer_review = IDLE"
  "\<not> processingRef fifth_answer_review"
  "js_trim (transcript fifth_answer_review) \<noteq> []"
  "4 \<le> userTurnCount (messages fifth_answer_review)"
  "ids_fresh fifth_answer_review"
  using fifth_answer_review_state
  by (simp_all add: Let_def js_trim_def is_space_def five_turns_def model_message_def
        userTurnCount_def ids_fresh_def eval_nat_numeral)


subsection \<open>Practice: one evaluation per submission\<close>

lemma run_append: "run parse s (es @ fs) = run parse (run parse s es) fs"
  by (induction es arbitrary: s) auto








lemma speakText_keeps:
  "messages (snd (speakText txt captured s)) = messages s"
  "lastFeedback (snd (speakText txt captured s)) = lastFeedback s"
  "mode (snd (speakText txt captured s)) = mode s"
  "inflight (snd (speakText txt captured s)) = inflight s"
  "processingRef (snd (speakText txt captured s)) = processingRef s"
  "watchdog (snd (speakText txt captured s)) = watchdog s"
  "speakingState (snd (speakText txt captured s)) = speakingState s"
  "localStorage (snd (speakText txt captured s)) = localStorage s"
  "transcript (snd (speakText txt captured s)) = transcript s"
  by (simp_all add: speakText_def addLog_def new_startTimeout_def split: synth_behaviour.splits)














text \<open>The scenario of the spec: the feedback with score 2 is stored and the line
  "I see, go on." is appended and handed to the speech engine.\<close>

lemma practice_feedback_example:
  \<open>let s2 = run JSON_parse_sample practice_review
              [Click_Submit,
               AI_settles 2 (Responded (Some ''{"isGood":false,"correction":"I am exhausted.","advice":"Use 'exhausted' not 'very tired'.","score":2,"nextResponse":"I see, go on."}''))]
    in lastFeedback s2
         = Some \<lparr>isGood = Bool False, correction = Str ''I am exhausted.'',
                 advice = Str ''Use 'exhausted' not 'very tired'.'', score = Num ''2''\<rparr>
       \<and> last (messages s2) = model_message (Str ''I see, go on.'')
       \<and> map fst (utterances s2) = [1, 3]
       \<and> last (utterances s2) = (3, Str ''I see, go on.'')
       \<and> speakingState s2 = PROCESSING\<close>
  unfolding practice_review_def run_append [symmetric]
  by (simp add: sample_defs service_defs handler_defs loop_defs)

subsection \<open>What the handlers leave alone\<close>

lemma addLog_keeps [simp]:
  "speakingState (addLog m s) = speakingState s"
  "processingRef (addLog m s) = processingRef s"
  "inflight (addLog m s) = inflight s"
  "watchdog (addLog m s) = watchdog s"
  by (simp_all add: addLog_def)

lemma saveLevel_keeps [simp]:
  "speakingState (saveLevel l s) = speakingState s"
  "processingRef (saveLevel l s) = processingRef s"
  "inflight (saveLevel l s) = inflight s"
  "watchdog (saveLevel l s) = watchdog s"
  by (simp_all add: saveLevel_def)

lemma speakText_frame [simp]:
  "speakingState (snd (speakText txt captured s)) = speakingState s"
  "processingRef (snd (speakText txt captured s)) = processingRef s"
  "inflight (snd (speakText txt captured s)) = inflight s"
  "watchdog (snd (speakText txt captured s)) = watchdog s"
  by (simp_all add: speakText_keeps)

lemma speakText_eqD:
  assumes "speakText txt captured s = (r, s')"
  shows "speakingState s' = speakingState s \<and> processingRef s' = processingRef s
         \<and> inflight s' = inflight s \<and> watchdog s' = watchdog s"
proof -
  have "s' = snd (speakText txt captured s)"
    using assms by simp
  then show ?thesis by simp
qed

lemma submit_onboarding_try_frame [simp]:
  "speakingState (snd (submit_onboarding_try cl r s)) = speakingState s"
  "processingRef (snd (submit_onboarding_try cl r s)) = processingRef s"
  "inflight (snd (submit_onboarding_try cl r s)) = inflight s"
  "watchdog (snd (submit_onboarding_try cl r s)) = watchdog s"
  by (simp_all add: submit_onboarding_try_def Let_def split: sum.splits)

lemma submit_practice_try_frame [simp]:
  "speakingState (snd (submit_practice_try cl r s)) = speakingState s"
  "processingRef (snd (submit_practice_try cl r s)) = processingRef s"
  "inflight (snd (submit_practice_try cl r s)) = inflight s"
  "watchdog (snd (submit_practice_try cl r s)) = watchdog s"
  by (auto simp: submit_practice_try_def Let_def split: sum.splits option.splits prod.splits
        dest!: speakText_eqD)

lemma submit_catch_finally_frame [simp]:
  "inflight (submit_catch_finally cl x) = inflight (snd x)"
  "watchdog (submit_catch_finally cl x) = watchdog (snd x)"
  "\<not> processingRef (submit_catch_finally cl x)"
  by (cases x; simp add: submit_catch_finally_def submit_finally_def Let_def
        split: sum.splits)+


lemma startOnboarding_rest_frame [simp]:
  "speakingState (startOnboarding_rest cl r s) = IDLE"
  "processingRef (startOnboarding_rest cl r s) = processingRef s"
  "inflight (startOnboarding_rest cl r s) = inflight s"
  "watchdog (startOnboarding_rest cl r s) = watchdog s"
  by (auto simp: startOnboarding_rest_def startOnboarding_catch_def Let_def
        split: sum.splits prod.splits dest!: speakText_eqD)

lemma startPractice_rest_frame [simp]:
  "processingRef (startPractice_rest cl r s) = processingRef s"
  "inflight (startPractice_rest cl r s) = inflight s"
  "watchdog (startPractice_rest cl r s) = watchdog s"
  by (simp_all add: startPractice_rest_def startPractice_catch_def Let_def
        split: sum.splits)


lemma settle_cases:
  "settle a ai k s = s \<or> (\<exists>r. settle a ai k s = k r s)"
  by (cases a) (auto simp: settle_def)

lemma resume_frame [simp]:
  "inflight (resume parse c ai s) = inflight s"
  "watchdog (resume parse c ai s) = watchdog s"
proof -
  show "inflight (resume parse c ai s) = inflight s"
    by (cases "call_site c")
       (simp_all add: resume_def Let_def settle_def split: async.splits)
  show "watchdog (resume parse c ai s) = watchdog s"
    by (cases "call_site c")
       (simp_all add: resume_def Let_def settle_def split: async.splits)
qed

lemma resume_guard:
  "processingRef (resume parse c ai s) = processingRef s
   \<or> (is_submit_call c \<and> \<not> processingRef (resume parse c ai s))"
  by (cases "call_site c")
     (simp_all add: resume_def Let_def settle_def is_submit_call_def split: async.splits)


subsection \<open>What a task does to the requests and the guard\<close>

lemma task_effect_same:
  assumes "watchdog s' = watchdog s" and "inflight s' = inflight s"
    and "processingRef s' = processingRef s"
  shows "task_effect s s'"
  using assms by (simp add: task_effect_def)

lemma startOnboarding_effect: "task_effect s (startOnboarding parse s)"
  by (simp add: task_effect_def startOnboarding_def Let_def await_def
        generatePlacementQuestion_def userTurnCount_def withTimeout_def is_submit_call_def)

lemma startPractice_effect: "task_effect s (startPractice parse s)"
  by (simp add: task_effect_def startPractice_def Let_def await_def
        generateDailyTopic_def withTimeout_def is_submit_call_def)

lemma handleSubmitAnswer_effect:
  assumes "speakingState s = IDLE"
  shows "task_effect s (handleSubmitAnswer parse s)"
proof -
  let ?text = "js_trim (transcript s)"
  let ?h = "messages s @ [\<lparr>role = User, msg_text = Str ?text\<rparr>]"
  consider (blank) "?text = []" | (busy) "?text \<noteq> []" "processingRef s"
    | (onboarding) "?text \<noteq> []" "\<not> processingRef s" "mode s = ONBOARDING"
    | (practice) "?text \<noteq> []" "\<not> processingRef s" "mode s = PRACTICE" "truthy (currentTopic s)"
    | (other) "?text \<noteq> []" "\<not> processingRef s" "mode s \<noteq> ONBOARDING"
        "mode s = PRACTICE \<longrightarrow> \<not> truthy (currentTopic s)"
    by blast
  then show ?thesis
  proof cases
    case blank
    then show ?thesis
      by (simp add: handleSubmitAnswer_def task_effect_def)
  next
    case busy
    then show ?thesis
      by (simp add: handleSubmitAnswer_def task_effect_def Let_def)
  next
    case onboarding
    then show ?thesis
      using assms
      by (simp add: handleSubmitAnswer_def task_effect_def Let_def await_def
            generatePlacementQuestion_def withTimeout_def is_submit_call_def)
  next
    case practice
    show ?thesis
    proof (cases "evaluateTurn parse (currentTopic s) ?h ?text (userLevel s)")
      case (Done r)
      then show ?thesis
        using practice
        by (simp add: handleSubmitAnswer_def task_effect_def Let_def await_def)
    next
      case (AwaitAI ms f)
      then have "ms = 15000"
        by (auto simp: evaluateTurn_def withTimeout_def split: if_splits sum.splits)
      then show ?thesis
        using practice assms AwaitAI
        by (simp add: handleSubmitAnswer_def task_effect_def Let_def await_def
              is_submit_call_def)
    qed
  next
    case other
    then show ?thesis
      by (auto simp: handleSubmitAnswer_def task_effect_def Let_def submit_finally_def)
  qed
qed

lemma onresult_loop_frame:
  "speakingState (snd (onresult_loop rs f s)) = speakingState s
   \<and> processingRef (snd (onresult_loop rs f s)) = processingRef s
   \<and> inflight (snd (onresult_loop rs f s)) = inflight s
   \<and> watchdog (snd (onresult_loop rs f s)) = watchdog s"
  by (induction rs f s rule: onresult_loop.induct) simp_all

lemma recognition_onresult_frame [simp]:
  "speakingState (recognition_onresult rs s) = speakingState s"
  "processingRef (recognition_onresult rs s) = processingRef s"
  "inflight (recognition_onresult rs s) = inflight s"
  "watchdog (recognition_onresult rs s) = watchdog s"
  using onresult_loop_frame [of rs "[]" s]
  by (auto simp: recognition_onresult_def split: prod.splits)

lemma single_submit_call:
  assumes "length (submit_calls s) \<le> 1" and "c \<in> set (inflight s)" and "is_submit_call c"
  shows "submit_calls s = [c]"
proof -
  have "c \<in> set (submit_calls s)"
    using assms(2,3) by (simp add: submit_calls_def)
  then show ?thesis
    using assms(1) by (cases "submit_calls s") auto
qed

lemma AI_settles_effect:
  assumes "length (submit_calls s) \<le> 1"
  shows "task_effect s (handle parse (AI_settles i ai) s)"
proof (cases "find (\<lambda>c. call_id c = i) (inflight s)")
  case None
  then show ?thesis
    by (simp add: handle_def task_effect_def)
next
  case (Some c)
  then have c: "c \<in> set (inflight s)" "call_id c = i"
    by (auto simp: find_Some_iff)
  let ?s = "s\<lparr>inflight := filter (\<lambda>c. call_id c \<noteq> i) (inflight s)\<rparr>"
  have h: "handle parse (AI_settles i ai) s = resume parse c ai ?s"
    using Some by (simp add: handle_def)
  have "is_submit_call c \<Longrightarrow> list_all (\<lambda>d. call_id d = i) (submit_calls s)"
    using single_submit_call [OF assms c(1)] c(2) by simp
  then show ?thesis
    unfolding h task_effect_def
    using resume_guard [of parse c ai ?s]
    by auto
qed

lemma handle_effect:
  assumes "length (submit_calls s) \<le> 1" and "e \<noteq> Tick"
  shows "task_effect s (handle parse e s)"
proof (cases e)
  case Click_StartAssessment
  then show ?thesis
    using startOnboarding_effect [of s parse]
    by (simp add: handle_def task_effect_same)
next
  case Click_StartDailyTask
  then show ?thesis
    using startPractice_effect [of s parse]
    by (simp add: handle_def task_effect_same)
next
  case Click_Submit
  then show ?thesis
    using handleSubmitAnswer_effect [of s parse]
    by (simp add: handle_def task_effect_same isReviewing_def)
next
  case (AI_settles i ai)
  then show ?thesis
    using AI_settles_effect [OF assms(1)] by simp
next
  case Tick
  then show ?thesis using assms(2) by simp
qed (simp_all add: handle_def task_effect_def handleManualSelect_def retakeAssessment_def
       handleRetry_def stopListening_def startListening_def Let_def recognition_onstart_def
       recognition_onerror_def recognition_onend_def utterance_onstart_def
       utterance_onend_def utterance_onerror_def clearTimeout_def split: option.splits)

subsection \<open>The invariant of the event loop\<close>

lemma no_submit_call_without_guard:
  assumes "timers_ok s" and "\<not> processingRef s"
  shows "submit_calls s = []"
  using assms by (cases "submit_calls s") (auto simp: timers_ok_def)

lemma submit_calls_effect [simp]:
  "submit_calls (watchdog_effect p s) = submit_calls s"
  by (simp add: submit_calls_def watchdog_effect_def)

lemma timers_ok_task:
  assumes ok: "timers_ok s" and nz: "watchdog s \<noteq> Some 0" and eff: "task_effect s s'"
  shows "timers_ok (watchdog_effect (speakingState s) s')
         \<and> watchdog (watchdog_effect (speakingState s) s') \<noteq> Some 0"
proof -
  let ?s'' = "watchdog_effect (speakingState s) s'"
  have w: "watchdog s' = watchdog s"
    using eff by (simp add: task_effect_def)
  have wd: "(case watchdog ?s'' of
               None \<Rightarrow> speakingState ?s'' \<noteq> PROCESSING
             | Some w \<Rightarrow> speakingState ?s'' = PROCESSING \<and> w \<le> 16000)"
    "watchdog ?s'' \<noteq> Some 0"
    using ok nz w by (auto simp: timers_ok_def watchdog_effect_def split: option.splits)
  have later: "\<And>c. call_timer c \<le> 15000 \<Longrightarrow> processingRef s'
                 \<Longrightarrow> (case watchdog s of None \<Rightarrow> True | Some w \<Rightarrow> call_timer c < w)
                 \<Longrightarrow> processingRef ?s''
                     \<and> (case watchdog ?s'' of None \<Rightarrow> True | Some w \<Rightarrow> call_timer c < w)"
    using w by (auto simp: watchdog_effect_def split: option.splits)
  consider (same) "inflight s' = inflight s" "processingRef s' = processingRef s"
    | (more) c where "inflight s' = inflight s @ [c]" "call_timer c = 15000"
        "if is_submit_call c
         then \<not> processingRef s \<and> processingRef s'
              \<and> speakingState s = IDLE \<and> speakingState s' = PROCESSING
         else processingRef s' = processingRef s"
    | (fewer) i where "inflight s' = filter (\<lambda>d. call_id d \<noteq> i) (inflight s)"
        "processingRef s' = processingRef s
         \<or> (\<not> processingRef s' \<and> list_all (\<lambda>d. call_id d = i) (submit_calls s))"
    using eff unfolding task_effect_def by blast
  then have calls:
    "list_all (\<lambda>c. call_timer c \<le> 15000) (inflight s')
     \<and> length (submit_calls s') \<le> 1
     \<and> list_all (\<lambda>c. processingRef ?s''
                      \<and> (case watchdog ?s'' of None \<Rightarrow> True | Some w \<Rightarrow> call_timer c < w))
          (submit_calls s')"
  proof cases
    case same
    then have sc: "submit_calls s' = submit_calls s"
      by (simp add: submit_calls_def)
    show ?thesis
      using ok same(1) sc later same(2)
      by (auto simp: timers_ok_def list_all_iff submit_calls_def)
  next
    case (more c)
    show ?thesis
    proof (cases "is_submit_call c")
      case True
      with more(3) have g: "\<not> processingRef s" "processingRef s'"
        "speakingState s = IDLE" "speakingState s' = PROCESSING"
        by simp_all
      have none: "submit_calls s = []"
        using ok g(1) by (rule no_submit_call_without_guard)
      then have sc: "submit_calls s' = [c]"
        using more(1) True by (simp add: submit_calls_def)
      have "watchdog ?s'' = Some 16000"
        using g(3,4) by (simp add: watchdog_effect_def)
      then show ?thesis
        using ok more(1,2) sc g(2)
        by (simp add: timers_ok_def watchdog_effect_def)
    next
      case False
      with more(3) have g: "processingRef s' = processingRef s"
        by simp
      have sc: "submit_calls s' = submit_calls s"
        using more(1) False by (simp add: submit_calls_def)
      show ?thesis
        using ok more(1,2) sc later g
        by (auto simp: timers_ok_def list_all_iff submit_calls_def)
    qed
  next
    case (fewer i)
    have sc: "submit_calls s' = filter (\<lambda>d. call_id d \<noteq> i) (submit_calls s)"
      using fewer(1) by (simp add: submit_calls_def conj_commute)
    have len: "length (submit_calls s') \<le> 1"
      using ok unfolding sc timers_ok_def
      by (meson le_trans length_filter_le)
    from fewer(2) show ?thesis
    proof
      assume g: "processingRef s' = processingRef s"
      show ?thesis
        using ok fewer(1) len later g unfolding sc
        by (auto simp: timers_ok_def list_all_iff submit_calls_def)
    next
      assume "\<not> processingRef s' \<and> list_all (\<lambda>d. call_id d = i) (submit_calls s)"
      then have "submit_calls s' = []"
        unfolding sc by (auto simp: list_all_iff filter_empty_conv)
      then show ?thesis
        using ok fewer(1) by (auto simp: timers_ok_def list_all_iff)
    qed
  qed
  have "inflight ?s'' = inflight s'"
    by (simp add: watchdog_effect_def)
  then show ?thesis
    using calls wd by (simp add: timers_ok_def)
qed

lemma positive_timers_task:
  assumes "list_all (\<lambda>c. 0 < call_timer c) (inflight s)" and "task_effect s s'"
  shows "list_all (\<lambda>c. 0 < call_timer c) (inflight (watchdog_effect p s'))"
proof -
  have "list_all (\<lambda>c. 0 < call_timer c) (inflight s')"
    using assms unfolding task_effect_def by (auto simp: list_all_iff)
  then show ?thesis
    by (simp add: watchdog_effect_def)
qed

lemma loop_invariant_event:
  assumes "loop_invariant s" and "e \<noteq> Tick"
  shows "loop_invariant (step parse e s)"
proof -
  have len: "length (submit_calls s) \<le> 1"
    using assms(1) by (simp add: loop_invariant_def timers_ok_def)
  have eff: "task_effect s (handle parse e s)"
    using len assms(2) by (rule handle_effect)
  show ?thesis
    using assms timers_ok_task [OF _ _ eff] positive_timers_task [OF _ eff]
    by (simp add: loop_invariant_def step_def task_def)
qed

subsection \<open>One millisecond\<close>

lemma is_submit_call_timer [simp]: "is_submit_call (c\<lparr>call_timer := t\<rparr>) = is_submit_call c"
  by (simp add: is_submit_call_def)

lemma submit_calls_elapse:
  "submit_calls (elapse s) = map (\<lambda>c. c\<lparr>call_timer := call_timer c - 1\<rparr>) (submit_calls s)"
  by (simp add: submit_calls_def elapse_def filter_map o_def)

lemma timers_ok_elapse:
  assumes "loop_invariant s"
  shows "timers_ok (elapse s)"
proof -
  have a: "list_all (\<lambda>c. call_timer c \<le> 15000) (inflight (elapse s))"
    using assms by (auto simp: loop_invariant_def timers_ok_def elapse_def list_all_iff)
  have b: "length (submit_calls (elapse s)) \<le> 1"
    using assms by (simp add: submit_calls_elapse loop_invariant_def timers_ok_def)
  have pos: "\<And>c. c \<in> set (submit_calls s) \<Longrightarrow> 0 < call_timer c"
    using assms by (auto simp: loop_invariant_def submit_calls_def list_all_iff)
  have c: "list_all (\<lambda>c. processingRef (elapse s)
                         \<and> (case watchdog (elapse s) of
                               None \<Rightarrow> True | Some w \<Rightarrow> call_timer c < w))
             (submit_calls (elapse s))"
    unfolding submit_calls_elapse list_all_iff
  proof
    fix c' assume "c' \<in> set (map (\<lambda>c. c\<lparr>call_timer := call_timer c - 1\<rparr>) (submit_calls s))"
    then obtain c where c: "c \<in> set (submit_calls s)"
      and c': "c' = c\<lparr>call_timer := call_timer c - 1\<rparr>"
      by auto
    have g: "processingRef s"
      "case watchdog s of None \<Rightarrow> True | Some w \<Rightarrow> call_timer c < w"
      using assms c by (auto simp: loop_invariant_def timers_ok_def list_all_iff)
    have "case watchdog s of None \<Rightarrow> True | Some w \<Rightarrow> call_timer c - 1 < w - 1"
      using g(2) pos [OF c] by (auto split: option.splits)
    then show "processingRef (elapse s)
               \<and> (case watchdog (elapse s) of None \<Rightarrow> True | Some w \<Rightarrow> call_timer c' < w)"
      using g(1) c' by (auto simp: elapse_def split: option.splits)
  qed
  have d: "(case watchdog (elapse s) of
              None \<Rightarrow> speakingState (elapse s) \<noteq> PROCESSING
            | Some w \<Rightarrow> speakingState (elapse s) = PROCESSING \<and> w \<le> 16000)"
    using assms
    by (auto simp: loop_invariant_def timers_ok_def elapse_def split: option.splits)
  show ?thesis
    using a b c d by (simp add: timers_ok_def)
qed

lemma fire_watchdog_ok:
  assumes "timers_ok s"
  shows "timers_ok (fire_watchdog s) \<and> watchdog (fire_watchdog s) \<noteq> Some 0"
proof (cases "watchdog s = Some 0")
  case False
  then show ?thesis
    using assms by (simp add: fire_watchdog_def)
next
  case True
  have none: "submit_calls s = []"
    using assms True by (cases "submit_calls s") (auto simp: timers_ok_def)
  have p: "speakingState s = PROCESSING"
    using assms True by (simp add: timers_ok_def)
  have f: "fire_watchdog s
             = (addLog ''Watchdog: Processing timeout. Force IDLE.'' (s\<lparr>watchdog := None\<rparr>))
                 \<lparr>speakingState := IDLE, processingRef := False, watchdog := None\<rparr>"
    using True p
    by (simp add: fire_watchdog_def task_def watchdog_fires_def watchdog_effect_def)
  have sc: "submit_calls (fire_watchdog s) = []"
    unfolding f using none by (simp add: submit_calls_def addLog_def)
  show ?thesis
    using assms sc unfolding timers_ok_def
    by (simp add: f addLog_def)
qed




lemma fire_call_effect:
  assumes "is_submit_call c \<longrightarrow> list_all (\<lambda>d. call_id d = call_id c) (submit_calls s)"
  shows "task_effect s
           (resume parse c ai
              (s\<lparr>inflight := filter (\<lambda>d. call_id d \<noteq> call_id c) (inflight s)\<rparr>))"
  unfolding task_effect_def
  using assms
    resume_guard [of parse c ai
                    "s\<lparr>inflight := filter (\<lambda>d. call_id d \<noteq> call_id c) (inflight s)\<rparr>"]
  by auto

lemma fire_calls_fold:
  assumes "timers_ok s" and "watchdog s \<noteq> Some 0"
    and "\<forall>c\<in>set ds. is_submit_call c
                      \<longrightarrow> list_all (\<lambda>d. call_id d = call_id c) (submit_calls s)"
  shows "timers_ok (foldl (fire_call parse) s ds)
         \<and> watchdog (foldl (fire_call parse) s ds) \<noteq> Some 0
         \<and> set (inflight (foldl (fire_call parse) s ds))
             \<subseteq> {d \<in> set (inflight s). call_id d \<notin> call_id ` set ds}"
  using assms
proof (induction ds arbitrary: s)
  case Nil
  then show ?case by simp
next
  case (Cons c ds)
  let ?s1 = "fire_call parse s c"
  have eff: "task_effect s
               (resume parse c (Rejected AI_Timeout)
                  (s\<lparr>inflight := filter (\<lambda>d. call_id d \<noteq> call_id c) (inflight s)\<rparr>))"
    using Cons.prems(3) by (intro fire_call_effect) simp
  have ok1: "timers_ok ?s1" "watchdog ?s1 \<noteq> Some 0"
    using timers_ok_task [OF Cons.prems(1,2) eff] by (simp_all add: fire_call_def task_def)
  have inf1: "inflight ?s1 = filter (\<lambda>d. call_id d \<noteq> call_id c) (inflight s)"
    by (simp add: fire_call_def task_def watchdog_effect_def)
  then have sc1: "submit_calls ?s1 = filter (\<lambda>d. call_id d \<noteq> call_id c) (submit_calls s)"
    by (simp add: submit_calls_def conj_commute)
  have rest: "\<forall>c\<in>set ds. is_submit_call c
                \<longrightarrow> list_all (\<lambda>d. call_id d = call_id c) (submit_calls ?s1)"
    using Cons.prems(3) unfolding sc1 by (auto simp: list_all_iff)
  have ih: "timers_ok (foldl (fire_call parse) ?s1 ds)
            \<and> watchdog (foldl (fire_call parse) ?s1 ds) \<noteq> Some 0
            \<and> set (inflight (foldl (fire_call parse) ?s1 ds))
                \<subseteq> {d \<in> set (inflight ?s1). call_id d \<notin> call_id ` set ds}"
    using ok1 rest by (rule Cons.IH)
  then show ?case
    unfolding inf1 by auto
qed

lemma loop_invariant_fire_calls:
  assumes "timers_ok s" and "watchdog s \<noteq> Some 0"
  shows "loop_invariant (fire_calls parse s)"
proof -
  let ?due = "filter (\<lambda>c. call_timer c = 0) (inflight s)"
  have len: "length (submit_calls s) \<le> 1"
    using assms(1) by (simp add: timers_ok_def)
  have one: "\<forall>c\<in>set ?due. is_submit_call c
               \<longrightarrow> list_all (\<lambda>d. call_id d = call_id c) (submit_calls s)"
  proof (intro ballI impI)
    fix c assume "c \<in> set ?due" and "is_submit_call c"
    then have "submit_calls s = [c]"
      using single_submit_call [OF len] by simp
    then show "list_all (\<lambda>d. call_id d = call_id c) (submit_calls s)"
      by simp
  qed
  have f: "timers_ok (fire_calls parse s) \<and> watchdog (fire_calls parse s) \<noteq> Some 0
           \<and> set (inflight (fire_calls parse s))
               \<subseteq> {d \<in> set (inflight s). call_id d \<notin> call_id ` set ?due}"
    unfolding fire_calls_def using assms one by (rule fire_calls_fold)
  have "\<And>d. d \<in> set (inflight (fire_calls parse s)) \<Longrightarrow> 0 < call_timer d"
  proof -
    fix d assume "d \<in> set (inflight (fire_calls parse s))"
    then have "d \<in> set (inflight s)" "call_id d \<notin> call_id ` set ?due"
      using f by auto
    then have "d \<notin> set ?due" by auto
    then show "0 < call_timer d"
      using \<open>d \<in> set (inflight s)\<close> by simp
  qed
  then show ?thesis
    using f by (simp add: loop_invariant_def list_all_iff)
qed

lemma quiet_effect:
  assumes "quiet f" and "inflight (f s) = inflight s" and "processingRef (f s) = processingRef s"
  shows "task_effect s (f s)"
  using assms by (simp add: quiet_def task_effect_def)

lemma loop_invariant_task:
  assumes "loop_invariant s" and "task_effect s (f s)"
  shows "loop_invariant (task f s)"
  using assms timers_ok_task [OF _ _ assms(2)] positive_timers_task [OF _ assms(2)]
  by (simp add: loop_invariant_def task_def)

lemma loop_invariant_fire_startTimeouts:
  assumes "loop_invariant s"
  shows "loop_invariant (fire_startTimeouts s)"
proof -
  have "loop_invariant (foldl fire_startTimeout s ts)" for ts
    using assms
  proof (induction ts arbitrary: s)
    case Nil
    then show ?case by simp
  next
    case (Cons t ts)
    have "task_effect s (startTimeout_fires (st_speakingState t) (clearTimeout (st_id t) s))"
      by (simp add: task_effect_def startTimeout_fires_def clearTimeout_def)
    then have "loop_invariant (fire_startTimeout s t)"
      unfolding fire_startTimeout_def using Cons.prems by (intro loop_invariant_task)
    then show ?case
      using Cons.IH by simp
  qed
  then show ?thesis
    by (simp add: fire_startTimeouts_def)
qed

lemma loop_invariant_fields:
  assumes "inflight s' = inflight s" and "processingRef s' = processingRef s"
    and "watchdog s' = watchdog s" and "speakingState s' = speakingState s"
  shows "loop_invariant s' = loop_invariant s"
  using assms
  by (simp add: loop_invariant_def timers_ok_def submit_calls_def cong: option.case_cong)

lemma loop_invariant_fire_introTimeouts:
  assumes "loop_invariant s"
  shows "loop_invariant (fire_introTimeouts s)"
proof -
  have fold: "loop_invariant (foldl fire_introTimeout s ts)" if "loop_invariant s" for s ts
    using that
  proof (induction ts arbitrary: s)
    case Nil
    then show ?case by simp
  next
    case (Cons t ts)
    have "task_effect s (introTimeout_fires t s)"
      by (simp add: task_effect_def introTimeout_fires_def)
    then have "loop_invariant (fire_introTimeout s t)"
      unfolding fire_introTimeout_def using Cons.prems by (intro loop_invariant_task)
    then show ?case
      using Cons.IH by simp
  qed
  have "loop_invariant (s\<lparr>introTimeouts := filter (\<lambda>t. it_timer t \<noteq> 0) (introTimeouts s)\<rparr>)
          = loop_invariant s"
    by (rule loop_invariant_fields) simp_all
  with assms
  have "loop_invariant (s\<lparr>introTimeouts := filter (\<lambda>t. it_timer t \<noteq> 0) (introTimeouts s)\<rparr>)"
    by simp
  then show ?thesis
    unfolding fire_introTimeouts_def Let_def by (rule fold)
qed

lemma loop_invariant_tick:
  assumes "loop_invariant s"
  shows "loop_invariant (tick parse s)"
proof -
  have a: "timers_ok (elapse s)"
    using assms by (rule timers_ok_elapse)
  have b: "timers_ok (fire_watchdog (elapse s))"
    "watchdog (fire_watchdog (elapse s)) \<noteq> Some 0"
    using fire_watchdog_ok [OF a] by simp_all
  have c: "loop_invariant (fire_calls parse (fire_watchdog (elapse s)))"
    using b by (rule loop_invariant_fire_calls)
  show ?thesis
    unfolding tick_def
    using c by (intro loop_invariant_fire_introTimeouts loop_invariant_fire_startTimeouts)
qed

lemma loop_invariant_step:
  "loop_invariant s \<Longrightarrow> loop_invariant (step parse e s)"
  using loop_invariant_event [of s e parse] loop_invariant_tick [of s parse]
  by (cases "e = Tick") (simp_all add: step_def)

lemma loop_invariant_run:
  "loop_invariant s \<Longrightarrow> loop_invariant (run parse s es)"
  by (induction es arbitrary: s) (simp_all add: loop_invariant_step)

lemma loop_invariant_mount: "loop_invariant (mount stored recognition engine)"
  by (simp add: loop_invariant_def timers_ok_def submit_calls_def mount_def load_level_def
        initial_App_def addLog_def split: option.splits)

subsection \<open>The re-entrancy guard\<close>

lemma resubmit_review_state:
  "let s = resubmit_review
   in processingRef s \<and> speakingState s = IDLE \<and> mode s = ONBOARDING
      \<and> transcript s = ''I teach.''
      \<and> map call_site (inflight s)
          = [Submit_generatePlacementQuestion
               [model_message (Str ''What do you do?''),
                \<lparr>role = User, msg_text = Str ''I tea''\<rparr>]]
      \<and> transcript (step JSON_parse_sample Click_Submit s) = []"
  unfolding resubmit_review_def
  by (simp add: sample_defs service_defs handler_defs loop_defs)

text \<open>
  C2, as the claim states it, fails: a submit request while a submission is in flight
  changes the state. With the guard set and a transcript under review, the click on the
  submit control discards the transcript.
\<close>

theorem submit_in_flight_clears_transcript_counterexample:
  "processingRef resubmit_review
   \<and> isReviewing resubmit_review
   \<and> transcript resubmit_review = ''I teach.''
   \<and> transcript (step JSON_parse_sample Click_Submit resubmit_review) = []
   \<and> step JSON_parse_sample Click_Submit resubmit_review \<noteq> resubmit_review"
proof -
  have a: "processingRef resubmit_review" "isReviewing resubmit_review"
    "transcript resubmit_review = ''I teach.''"
    "transcript (step JSON_parse_sample Click_Submit resubmit_review) = []"
    using resubmit_review_state by (simp_all add: Let_def isReviewing_def)
  have "transcript (step JSON_parse_sample Click_Submit resubmit_review)
          \<noteq> transcript resubmit_review"
    unfolding a by simp
  then have "step JSON_parse_sample Click_Submit resubmit_review \<noteq> resubmit_review"
    by auto
  with a show ?thesis by simp
qed

lemma submit_call_releases_guard:
  assumes "\<not> processingRef t"
  shows "\<not> processingRef (handleSubmitAnswer parse t)
         \<or> (\<exists>c. inflight (handleSubmitAnswer parse t) = inflight t @ [c] \<and> is_submit_call c
                \<and> (\<forall>ai u. \<not> processingRef (resume parse c ai u)))"
proof -
  let ?text = "js_trim (transcript t)"
  let ?h = "messages t @ [\<lparr>role = User, msg_text = Str ?text\<rparr>]"
  let ?cl = "\<lparr>c_mode = mode t, c_speakingState = speakingState t\<rparr>"
  consider (blank) "?text = []"
    | (onboarding) "?text \<noteq> []" "mode t = ONBOARDING"
    | (practice) "?text \<noteq> []" "mode t = PRACTICE" "truthy (currentTopic t)"
    | (other) "?text \<noteq> []" "mode t \<noteq> ONBOARDING"
        "mode t = PRACTICE \<longrightarrow> \<not> truthy (currentTopic t)"
    by blast
  then show ?thesis
  proof cases
    case blank
    then show ?thesis
      using assms by (simp add: handleSubmitAnswer_def)
  next
    case onboarding
    let ?c = "\<lparr>call_id = nextId t, call_timer = 15000,
               call_site = Submit_generatePlacementQuestion ?h, call_closure = ?cl\<rparr>"
    have "inflight (handleSubmitAnswer parse t) = inflight t @ [?c]"
      using onboarding assms
      by (simp add: handleSubmitAnswer_def Let_def await_def generatePlacementQuestion_def
            withTimeout_def addLog_def)
    moreover have "is_submit_call ?c"
      by (simp add: is_submit_call_def)
    moreover have "\<forall>ai u. \<not> processingRef (resume parse ?c ai u)"
      by (simp add: resume_def Let_def settle_def generatePlacementQuestion_def
            withTimeout_def)
    ultimately show ?thesis by blast
  next
    case practice
    let ?a = "evaluateTurn parse (currentTopic t) ?h ?text (userLevel t)"
    show ?thesis
    proof (cases ?a)
      case (Done r)
      then show ?thesis
        using practice assms
        by (simp add: handleSubmitAnswer_def Let_def await_def)
    next
      case (AwaitAI ms f)
      let ?c = "\<lparr>call_id = nextId t, call_timer = ms,
                 call_site = Submit_evaluateTurn (currentTopic t) ?h ?text (userLevel t),
                 call_closure = ?cl\<rparr>"
      have "inflight (handleSubmitAnswer parse t) = inflight t @ [?c]"
        using practice assms AwaitAI
        by (simp add: handleSubmitAnswer_def Let_def await_def addLog_def)
      moreover have "is_submit_call ?c"
        by (simp add: is_submit_call_def)
      moreover have "\<forall>ai u. \<not> processingRef (resume parse ?c ai u)"
        using AwaitAI by (simp add: resume_def Let_def settle_def)
      ultimately show ?thesis by blast
    qed
  next
    case other
    then show ?thesis
      using assms by (auto simp: handleSubmitAnswer_def Let_def submit_finally_def)
  qed
qed

text \<open>
  C2, amended. While the guard is set, \<^verbatim>\<open>handleSubmitAnswer\<close> with a non-blank transcript
  clears the transcript and does nothing else (with a blank one it does nothing at all):
  no message is appended and no request is made. A submission that is accepted either
  has run its \<^verbatim>\<open>finally\<close> block already, so that the guard is clear again, or has put one
  request in flight whose continuation clears the guard whatever the request settles
  with (a response, a rejection, the timeout). In every state that the event loop reaches
  from the mounted component at most one request made by a submission is in flight.
\<close>

theorem submit_guard:
  assumes "processingRef s" and "\<not> processingRef t"
  shows "handleSubmitAnswer parse s
           = s\<lparr>transcript := (if js_trim (transcript s) = [] then transcript s else [])\<rparr>
       \<and> (step parse Click_Submit s = s
           \<or> step parse Click_Submit s = handleSubmitAnswer parse s)
       \<and> (\<not> processingRef (handleSubmitAnswer parse t)
           \<or> (\<exists>c. inflight (handleSubmitAnswer parse t) = inflight t @ [c] \<and> is_submit_call c
                  \<and> (\<forall>ai u. \<not> processingRef (resume parse c ai u))))
       \<and> (\<forall>past. length (submit_calls (run parse (mount stored recognition engine) past)) \<le> 1)"
proof -
  have a: "handleSubmitAnswer parse s
             = s\<lparr>transcript := (if js_trim (transcript s) = [] then transcript s else [])\<rparr>"
    using assms(1) by (simp add: handleSubmitAnswer_def Let_def)
  have "speakingState (handleSubmitAnswer parse s) = speakingState s"
    unfolding a by simp
  then have b: "step parse Click_Submit s = s
                \<or> step parse Click_Submit s = handleSubmitAnswer parse s"
    by (simp add: step_def task_def handle_def watchdog_effect_def)
  have d: "\<forall>past. length (submit_calls (run parse (mount stored recognition engine) past)) \<le> 1"
  proof
    fix past
    have "loop_invariant (run parse (mount stored recognition engine) past)"
      by (intro loop_invariant_run loop_invariant_mount)
    then show "length (submit_calls (run parse (mount stored recognition engine) past)) \<le> 1"
      by (simp add: loop_invariant_def timers_ok_def)
  qed
  show ?thesis
    using a b submit_call_releases_guard [OF assms(2), of parse] d by blast
qed

theorem submit_guard_witness:
  "processingRef resubmit_review \<and> \<not> processingRef fifth_answer_review
   \<and> handleSubmitAnswer JSON_parse_sample resubmit_review
       = resubmit_review\<lparr>transcript := []\<rparr>
   \<and> length (submit_calls resubmit_review) \<le> 1"
proof -
  have a: "processingRef resubmit_review"
    using resubmit_review_state by (simp add: Let_def)
  have b: "\<not> processingRef fifth_answer_review"
    by (rule fifth_answer_review_facts)
  have t: "js_trim (transcript resubmit_review) \<noteq> []"
    using resubmit_review_state by (simp add: Let_def js_trim_def is_space_def)
  note g = submit_guard [OF a b, of JSON_parse_sample None True SynthOk]
  have "length (submit_calls resubmit_review) \<le> 1"
    using g unfolding resubmit_review_def fresh_App_def by blast
  moreover have "handleSubmitAnswer JSON_parse_sample resubmit_review
                   = resubmit_review\<lparr>transcript := []\<rparr>"
    using g t by simp
  ultimately show ?thesis
    using a b by simp
qed

subsection \<open>The watchdog\<close>

lemma task_state [simp]: "speakingState (task f s) = speakingState (f s)"
  by (simp add: task_def watchdog_effect_def)

lemma task_guard [simp]: "processingRef (task f s) = processingRef (f s)"
  by (simp add: task_def watchdog_effect_def)






















end
